theory Spec2Isabelle
  imports Main "HOL-Library.AList" "HOL-Library.Sublist"
begin

section \<open>Python values and errors\<close>

text \<open>
  The program is a single Python module, \<^verbatim>\<open>claude_profiles.py\<close>. Values read from JSON
  documents are modelled by the datatype \<open>json\<close>; a Python \<^verbatim>\<open>dict\<close> is an association
  list in insertion order (\<open>AList.update\<close> overwrites a present key in place and appends a
  new one, as \<^verbatim>\<open>d[k] = v\<close> does; \<open>AList.delete\<close> is \<^verbatim>\<open>d.pop(k, None)\<close>).
  JSON numbers are kept as integers: no function of the module computes with them.
  Terminal output (\<^verbatim>\<open>print\<close>, \<^verbatim>\<open>styled\<close>) is not modelled.
\<close>

datatype json =
    JNull
  | JBool bool
  | JNum int
  | JStr string
  | JList "json list"
  | JDict "(string \<times> json) list"

type_synonym dict = "(string \<times> json) list"

text \<open>
  Exceptions that the modelled functions can raise and do not catch themselves.
  \<open>SystemExit\<close> is \<^verbatim>\<open>sys.exit(1)\<close>.
\<close>

datatype error =
    SystemExit
  | AttributeError
  | TypeError
  | IsADirectoryError
  | FileNotFoundError

definition bind :: "error + 'a \<Rightarrow> ('a \<Rightarrow> error + 'b) \<Rightarrow> error + 'b" where
  "bind m f = (case m of Inl e \<Rightarrow> Inl e | Inr x \<Rightarrow> f x)"

section \<open>The file system\<close>

text \<open>
  A file system is a finite table from absolute paths (lists of components) to nodes: a
  text file with its content, or a directory. \<^verbatim>\<open>Path(directory).resolve()\<close> is the
  identity on such paths. Files hold text: \<^verbatim>\<open>read_text\<close> returns the content of a
  file and raises on a directory or a missing path. Symbolic links, permissions and files
  whose bytes are not text in the encoding of the locale are outside the model.
\<close>

datatype node = File string | Dir

type_synonym path = "string list"

type_synonym filesystem = "(path \<times> node) list"

definition exists :: "filesystem \<Rightarrow> path \<Rightarrow> bool" where
  "exists fs p = (map_of fs p \<noteq> None)"

definition is_dir :: "filesystem \<Rightarrow> path \<Rightarrow> bool" where
  "is_dir fs p = (map_of fs p = Some Dir)"

definition read_text :: "filesystem \<Rightarrow> path \<Rightarrow> error + string" where
  "read_text fs p =
     (case map_of fs p of
        None \<Rightarrow> Inl FileNotFoundError
      | Some Dir \<Rightarrow> Inl IsADirectoryError
      | Some (File s) \<Rightarrow> Inr s)"

text \<open>
  \<^verbatim>\<open>os.scandir\<close>: the names of the entries of a directory. On anything that is not a
  directory it raises \<^verbatim>\<open>OSError\<close>, which \<^verbatim>\<open>pathlib\<close>'s selectors swallow: no entries.
\<close>

definition scandir :: "filesystem \<Rightarrow> path \<Rightarrow> string list" where
  "scandir fs p =
     (if is_dir fs p
      then remdups (map last (filter (\<lambda>q. q \<noteq> [] \<and> butlast q = p) (map fst fs)))
      else [])"

subsection \<open>\<^verbatim>\<open>Path.glob\<close>\<close>

text \<open>
  \<^verbatim>\<open>fnmatch\<close> on one path component, for the pattern characters \<^verbatim>\<open>*\<close> (any run of
  characters) and \<^verbatim>\<open>?\<close> (any one character); every other character stands for itself.
  The markers of the module use no character class \<^verbatim>\<open>[...]\<close>, no \<^verbatim>\<open>**\<close> and no
  \<^verbatim>\<open>..\<close>, which are left out.
\<close>

fun fnmatch :: "string \<Rightarrow> string \<Rightarrow> bool" where
  "fnmatch [] [] = True"
| "fnmatch (c # cs) [] = False"
| "fnmatch [] (p # ps) = (p = CHR ''*'' \<and> fnmatch [] ps)"
| "fnmatch (c # cs) (p # ps) =
     (if p = CHR ''*'' then fnmatch (c # cs) ps \<or> fnmatch cs (p # ps)
      else (p = CHR ''?'' \<or> p = c) \<and> fnmatch cs ps)"

text \<open>The components of a relative pattern, split at \<^verbatim>\<open>/\<close>.\<close>

fun pattern_parts_acc :: "string \<Rightarrow> string \<Rightarrow> string list" where
  "pattern_parts_acc acc [] = (if acc = [] then [] else [acc])"
| "pattern_parts_acc acc (c # cs) =
     (if c = CHR ''/'' then (if acc = [] then [] else [acc]) @ pattern_parts_acc [] cs
      else pattern_parts_acc (acc @ [c]) cs)"

definition pattern_parts :: "string \<Rightarrow> string list" where
  "pattern_parts pattern = pattern_parts_acc [] pattern"

text \<open>
  \<^verbatim>\<open>_WildcardSelector._select_from\<close>: the entries of the directory whose name matches the
  component; when more components follow, only entries that are directories. The
  terminating selector yields the path itself.
\<close>

fun select_from :: "filesystem \<Rightarrow> string list \<Rightarrow> path \<Rightarrow> path list" where
  "select_from fs [] p = [p]"
| "select_from fs (pat # child_parts) p =
     concat (map (\<lambda>name. select_from fs child_parts (p @ [name]))
       (filter (\<lambda>name. (child_parts = [] \<or> is_dir fs (p @ [name])) \<and> fnmatch name pat)
         (scandir fs p)))"

text \<open>
  \<^verbatim>\<open>Path.glob(pattern)\<close>: \<^verbatim>\<open>select_from\<close> returns nothing when the path is not a
  directory, and in particular when it does not exist; no exception is raised. (Python
  versions before 3.12 test a component without wildcard with \<^verbatim>\<open>exists\<close> instead of
  listing the directory; the lemma \<open>select_literal\<close> below shows that this is the same.)
\<close>

definition glob :: "filesystem \<Rightarrow> path \<Rightarrow> string \<Rightarrow> path list" where
  "glob fs p pattern = (if \<not> is_dir fs p then [] else select_from fs (pattern_parts pattern) p)"

section \<open>Detection\<close>

type_synonym detection_rule = "string list \<times> string \<times> string option"

definition DETECTION_RULES :: "detection_rule list" where
  "DETECTION_RULES =
    [([''*.xcodeproj'', ''*.xcworkspace'', ''Package.swift''], ''ios-swift'', None),
     ([''pubspec.yaml''], ''flutter'', None),
     ([''app/build.gradle*'', ''app/build.gradle.kts''], ''android'', None),
     ([''pom.xml''], ''java'', Some ''maven''),
     ([''build.gradle'', ''build.gradle.kts'', ''gradlew''], ''java'', Some ''gradle''),
     ([''Cargo.toml''], ''rust'', None),
     ([''go.mod''], ''go'', None),
     ([''next.config.*'', ''*.tsx''], ''typescript-react'', None),
     ([''tsconfig.json''], ''typescript-node'', None),
     ([''package.json''], ''javascript-node'', None),
     ([''pyproject.toml'', ''setup.py'', ''requirements.txt'', ''Pipfile''], ''python'', None),
     ([''CMakeLists.txt'', ''Makefile''], ''cpp'', None)]"

text \<open>
  The inner loop of \<^verbatim>\<open>detect_project\<close> over the markers of one rule: at the first marker
  with a match the entry is appended unless it is already in \<open>detected\<close>, and the loop
  breaks.
\<close>

fun scan_markers ::
  "filesystem \<Rightarrow> path \<Rightarrow> string list \<Rightarrow> string \<times> string option \<Rightarrow>
   (string \<times> string option) list \<Rightarrow> (string \<times> string option) list" where
  "scan_markers fs p [] entry detected = detected"
| "scan_markers fs p (marker # markers) entry detected =
     (if glob fs p marker \<noteq> []
      then (if entry \<notin> set detected then detected @ [entry] else detected)
      else scan_markers fs p markers entry detected)"

text \<open>The outer loop over the rules.\<close>

fun scan_rules ::
  "filesystem \<Rightarrow> path \<Rightarrow> detection_rule list \<Rightarrow>
   (string \<times> string option) list \<Rightarrow> (string \<times> string option) list" where
  "scan_rules fs p [] detected = detected"
| "scan_rules fs p ((markers, profile, variant) # rules) detected =
     scan_rules fs p rules (scan_markers fs p markers (profile, variant) detected)"

definition detect_project :: "filesystem \<Rightarrow> path \<Rightarrow> (string \<times> string option) list" where
  "detect_project fs directory = scan_rules fs directory DETECTION_RULES []"

section \<open>Dictionaries\<close>

text \<open>
  \<^verbatim>\<open>d.get(k, default)\<close>, \<^verbatim>\<open>k in d\<close>, and the unpacking of the items of one dictionary
  into another, in order: \<^verbatim>\<open>acc.update(d)\<close>, and \<^verbatim>\<open>{**a, **b}\<close> as
  \<open>unpack_into b (unpack_into a [])\<close>.
\<close>

definition py_get :: "(string \<times> 'v) list \<Rightarrow> string \<Rightarrow> 'v \<Rightarrow> 'v" where
  "py_get d k dflt = (case map_of d k of Some v \<Rightarrow> v | None \<Rightarrow> dflt)"

definition has_key :: "(string \<times> 'v) list \<Rightarrow> string \<Rightarrow> bool" where
  "has_key d k = (map_of d k \<noteq> None)"

definition unpack_into :: "(string \<times> 'v) list \<Rightarrow> (string \<times> 'v) list \<Rightarrow> (string \<times> 'v) list" where
  "unpack_into d acc = fold (\<lambda>(k, v). AList.update k v) d acc"

text \<open>
  Attribute access \<^verbatim>\<open>x.get\<close> exists on a \<^verbatim>\<open>dict\<close> only, and \<^verbatim>\<open>**x\<close> in a dictionary
  display needs a mapping: on any other JSON value they raise.
\<close>

definition get_method :: "json \<Rightarrow> error + dict" where
  "get_method x = (case x of JDict d \<Rightarrow> Inr d | _ \<Rightarrow> Inl AttributeError)"

definition mapping_of :: "json \<Rightarrow> error + dict" where
  "mapping_of x = (case x of JDict d \<Rightarrow> Inr d | _ \<Rightarrow> Inl TypeError)"

section \<open>Variant detection\<close>

text \<open>\<^verbatim>\<open>str.lower\<close> on the ASCII letters; the characters of a \<open>string\<close> are bytes.\<close>

definition lower_char :: "char \<Rightarrow> char" where
  "lower_char c =
     (let n = (of_char c :: nat) in if 65 \<le> n \<and> n \<le> 90 then char_of (n + 32) else c)"

definition lower :: "string \<Rightarrow> string" where
  "lower s = map lower_char s"

text \<open>The Java block: Maven before Gradle; \<open>None\<close> when the block does not return.\<close>

definition java_variant :: "filesystem \<Rightarrow> path \<Rightarrow> string option" where
  "java_variant fs path =
     (if glob fs path ''pom.xml'' \<noteq> [] then Some ''maven''
      else if glob fs path ''build.gradle'' \<noteq> [] \<or> glob fs path ''build.gradle.kts'' \<noteq> []
              \<or> glob fs path ''gradlew'' \<noteq> []
      then Some ''gradle''
      else None)"

text \<open>The chain of tests on the combined dependencies, in the order of the source.\<close>

definition deps_variant :: "dict \<Rightarrow> string option" where
  "deps_variant deps =
     (if has_key deps ''next'' then Some ''nextjs''
      else if has_key deps ''react'' then Some ''react''
      else if has_key deps ''vue'' then Some ''vue''
      else if has_key deps ''svelte'' \<or> has_key deps ''@sveltejs/kit'' then Some ''svelte''
      else if has_key deps ''express'' \<or> has_key deps ''fastify'' \<or> has_key deps ''koa''
      then Some ''api''
      else None)"

text \<open>
  The JavaScript/TypeScript block. \<^verbatim>\<open>json.loads\<close> is a parameter: \<open>loads text = None\<close>
  stands for \<^verbatim>\<open>JSONDecodeError\<close>, which the \<^verbatim>\<open>except\<close> clause catches (with
  \<^verbatim>\<open>KeyError\<close>, which nothing in the block raises). Every other exception leaves the
  function: \<^verbatim>\<open>read_text\<close> on a directory, \<^verbatim>\<open>.get\<close> on a manifest that is no object,
  \<^verbatim>\<open>**\<close> on a dependency table that is no mapping.
\<close>

definition package_variant ::
  "(string \<Rightarrow> json option) \<Rightarrow> filesystem \<Rightarrow> path \<Rightarrow> error + string option" where
  "package_variant loads fs path =
     (let pkg_path = path @ [''package.json''] in
      if exists fs pkg_path then
        bind (read_text fs pkg_path) (\<lambda>text.
          case loads text of
            None \<Rightarrow> Inr None
          | Some pkg \<Rightarrow>
              bind (get_method pkg) (\<lambda>pkg_d.
              bind (mapping_of (py_get pkg_d ''dependencies'' (JDict []))) (\<lambda>dependencies.
              bind (mapping_of (py_get pkg_d ''devDependencies'' (JDict []))) (\<lambda>devDependencies.
                Inr (deps_variant (unpack_into devDependencies (unpack_into dependencies [])))))))
      else Inr None)"

text \<open>The Python block.\<close>

definition python_variant :: "filesystem \<Rightarrow> path \<Rightarrow> error + string option" where
  "python_variant fs path =
     (if glob fs path ''manage.py'' \<noteq> [] then Inr (Some ''django'')
      else if glob fs path ''app.py'' \<noteq> [] \<or> glob fs path ''wsgi.py'' \<noteq> [] then Inr (Some ''flask'')
      else if exists fs (path @ [''pyproject.toml'']) then
        bind (read_text fs (path @ [''pyproject.toml''])) (\<lambda>content.
          if sublist ''fastapi'' (lower content) then Inr (Some ''fastapi'') else Inr None)
      else Inr None)"

definition JS_STACKS :: "string list" where
  "JS_STACKS = [''typescript-react'', ''typescript-node'', ''javascript-node'']"

text \<open>
  \<^verbatim>\<open>detect_variant\<close>: the three blocks in sequence; a block that does not return falls
  through to the next, and the function ends with \<^verbatim>\<open>return None\<close>.
\<close>

definition detect_variant ::
  "(string \<Rightarrow> json option) \<Rightarrow> filesystem \<Rightarrow> string \<Rightarrow> path \<Rightarrow> error + string option" where
  "detect_variant loads fs profile_name directory =
     (let path = directory in
      case (if profile_name = ''java'' then java_variant fs path else None) of
        Some v \<Rightarrow> Inr (Some v)
      | None \<Rightarrow>
          bind (if profile_name \<in> set JS_STACKS then package_variant loads fs path else Inr None)
            (\<lambda>r. case r of
               Some v \<Rightarrow> Inr (Some v)
             | None \<Rightarrow> (if profile_name = ''python'' then python_variant fs path else Inr None)))"

section \<open>Profiles\<close>

text \<open>
  Profile documents have the shape of the data model: every field is optional (the code
  reads each with \<^verbatim>\<open>.get\<close> and a default), the four artifact maps are dictionaries,
  rules and skills hold text. A profile file that is not a JSON document of this shape is
  outside the model. The code never assigns into a variant override: it is an immutable
  part of the document.
\<close>

type_synonym texts = "(string \<times> string) list"

record variant_override =
  v_mcp_servers :: "dict option"
  v_exclude_mcps :: "string list option"
  v_claude_md_append :: "string option"
  v_rules :: "texts option"
  v_skills :: "texts option"
  v_settings_merge :: "dict option"

text \<open>
  The record is used twice: a document on disk holds the dictionaries themselves
  (\<open>profile_doc\<close>); the object that \<^verbatim>\<open>json.load\<close> builds holds references to dictionary
  objects in the store (\<open>profile_obj\<close>).
\<close>

record ('j, 't) profile =
  display_name :: "string option"
  description :: "string option"
  mcp_servers :: "'j option"
  claude_md :: "string option"
  rules :: "'t option"
  skills :: "'t option"
  settings :: "'j option"
  variants :: "(string \<times> variant_override) list option"

type_synonym addr = nat

type_synonym profile_doc = "(dict, texts) profile"

type_synonym profile_obj = "(addr, addr) profile"

subsection \<open>The store of dictionary objects\<close>

text \<open>
  Python dictionaries are mutable objects, and two names may refer to the same one. The
  store holds the dictionary objects, one list for those with JSON values and one for those
  with text values; an address is an index. A new object is appended, so that it is
  distinct from every object already there.
\<close>

record store =
  json_cells :: "dict list"
  text_cells :: "texts list"

definition new_dict :: "store \<Rightarrow> dict \<Rightarrow> addr \<times> store" where
  "new_dict st d = (length (json_cells st), st\<lparr>json_cells := json_cells st @ [d]\<rparr>)"

definition new_texts :: "store \<Rightarrow> texts \<Rightarrow> addr \<times> store" where
  "new_texts st d = (length (text_cells st), st\<lparr>text_cells := text_cells st @ [d]\<rparr>)"

text \<open>\<^verbatim>\<open>obj.update(d)\<close>, \<^verbatim>\<open>obj.pop(k, None)\<close> and \<^verbatim>\<open>obj[k] = v\<close> on the object at an address.\<close>

definition dict_update :: "store \<Rightarrow> addr \<Rightarrow> dict \<Rightarrow> store" where
  "dict_update st a d = st\<lparr>json_cells := (json_cells st)[a := unpack_into d (json_cells st ! a)]\<rparr>"

definition texts_update :: "store \<Rightarrow> addr \<Rightarrow> texts \<Rightarrow> store" where
  "texts_update st a d = st\<lparr>text_cells := (text_cells st)[a := unpack_into d (text_cells st ! a)]\<rparr>"

definition dict_pop :: "store \<Rightarrow> addr \<Rightarrow> string \<Rightarrow> store" where
  "dict_pop st a k = st\<lparr>json_cells := (json_cells st)[a := AList.delete k (json_cells st ! a)]\<rparr>"

definition dict_setitem :: "store \<Rightarrow> addr \<Rightarrow> string \<Rightarrow> json \<Rightarrow> store" where
  "dict_setitem st a k v = st\<lparr>json_cells := (json_cells st)[a := AList.update k v (json_cells st ! a)]\<rparr>"

subsection \<open>Loading\<close>

text \<open>
  The profile directories are tables from a profile name to the document in the file
  \<^verbatim>\<open>name.json\<close>; the user's directory may not exist.
\<close>

record profile_dirs =
  PROFILES_DIR :: "(string \<times> profile_doc) list option"
  BUILTIN_PROFILES_DIR :: "(string \<times> profile_doc) list"

definition get_profiles_dir :: "profile_dirs \<Rightarrow> (string \<times> profile_doc) list" where
  "get_profiles_dir dirs =
     (case PROFILES_DIR dirs of Some user \<Rightarrow> user | None \<Rightarrow> BUILTIN_PROFILES_DIR dirs)"

text \<open>
  \<^verbatim>\<open>json.load\<close> builds a fresh object for every dictionary of the document: the four
  artifact maps get addresses of their own.
\<close>

definition json_load :: "store \<Rightarrow> profile_doc \<Rightarrow> profile_obj \<times> store" where
  "json_load st doc =
     (let (m, st1) = (case mcp_servers doc of None \<Rightarrow> (None, st)
                      | Some d \<Rightarrow> (let (a, st') = new_dict st d in (Some a, st')));
          (r, st2) = (case rules doc of None \<Rightarrow> (None, st1)
                      | Some d \<Rightarrow> (let (a, st') = new_texts st1 d in (Some a, st')));
          (k, st3) = (case skills doc of None \<Rightarrow> (None, st2)
                      | Some d \<Rightarrow> (let (a, st') = new_texts st2 d in (Some a, st')));
          (s, st4) = (case settings doc of None \<Rightarrow> (None, st3)
                      | Some d \<Rightarrow> (let (a, st') = new_dict st3 d in (Some a, st')))
      in (\<lparr>display_name = display_name doc, description = description doc,
            mcp_servers = m, claude_md = claude_md doc, rules = r, skills = k,
            settings = s, variants = variants doc\<rparr>, st4))"

definition load_profile ::
  "profile_dirs \<Rightarrow> store \<Rightarrow> string \<Rightarrow> error + profile_obj \<times> store" where
  "load_profile dirs st name =
     (case map_of (get_profiles_dir dirs) name of
        None \<Rightarrow> Inl SystemExit
      | Some doc \<Rightarrow> Inr (json_load st doc))"

text \<open>The document that a profile object stands for in a store.\<close>

definition document :: "store \<Rightarrow> profile_obj \<Rightarrow> profile_doc" where
  "document st p =
     \<lparr>display_name = display_name p, description = description p,
      mcp_servers = map_option (\<lambda>a. json_cells st ! a) (mcp_servers p),
      claude_md = claude_md p,
      rules = map_option (\<lambda>a. text_cells st ! a) (rules p),
      skills = map_option (\<lambda>a. text_cells st ! a) (skills p),
      settings = map_option (\<lambda>a. json_cells st ! a) (settings p),
      variants = variants p\<rparr>"

section \<open>Merging a profile with a variant\<close>

text \<open>
  The empty dictionary \<^verbatim>\<open>{}\<close> as a variant configuration, and the lookup of lines
  180 to 182: the variant is used when it is truthy (neither \<^verbatim>\<open>None\<close> nor the empty
  string) and the profile has a \<^verbatim>\<open>variants\<close> field; a name that is not a key gives \<^verbatim>\<open>{}\<close>.
\<close>

definition empty_variant :: variant_override where
  "empty_variant =
     \<lparr>v_mcp_servers = None, v_exclude_mcps = None, v_claude_md_append = None,
      v_rules = None, v_skills = None, v_settings_merge = None\<rparr>"

definition variant_config :: "profile_obj \<Rightarrow> string option \<Rightarrow> variant_override" where
  "variant_config profile variant =
     (case variant of
        None \<Rightarrow> empty_variant
      | Some v \<Rightarrow>
          (case variants profile of
             Some vs \<Rightarrow> (if v \<noteq> [] then py_get vs v empty_variant else empty_variant)
           | None \<Rightarrow> empty_variant))"

text \<open>
  Lines 206 to 212: a new dictionary with the items of the profile's servers, updated
  with the variant's servers when that field is a non-empty dictionary, and then every
  excluded name popped.
\<close>

definition merge_mcp_servers :: "store \<Rightarrow> profile_obj \<Rightarrow> variant_override \<Rightarrow> addr \<times> store" where
  "merge_mcp_servers st profile vc =
     (let base = (case mcp_servers profile of Some a \<Rightarrow> json_cells st ! a | None \<Rightarrow> []);
          (mcp, st1) = new_dict st (unpack_into base []);
          st2 = (case v_mcp_servers vc of
                   Some d \<Rightarrow> (if d \<noteq> [] then dict_update st1 mcp d else st1)
                 | None \<Rightarrow> st1);
          st3 = fold (\<lambda>excluded st'. dict_pop st' mcp excluded)
                  (case v_exclude_mcps vc of Some l \<Rightarrow> l | None \<Rightarrow> []) st2
      in (mcp, st3))"

text \<open>Lines 224 to 226.\<close>

definition merge_claude_md :: "profile_obj \<Rightarrow> variant_override \<Rightarrow> string" where
  "merge_claude_md profile vc =
     (let md = (case claude_md profile of Some s \<Rightarrow> s | None \<Rightarrow> [])
      in case v_claude_md_append vc of
           Some a \<Rightarrow> (if a \<noteq> [] then md @ [CHR 0x0A, CHR 0x0A] @ a else md)
         | None \<Rightarrow> md)"

text \<open>Lines 239 to 241 and 250 to 252.\<close>

definition merge_rules :: "store \<Rightarrow> profile_obj \<Rightarrow> variant_override \<Rightarrow> addr \<times> store" where
  "merge_rules st profile vc =
     (let base = (case rules profile of Some a \<Rightarrow> text_cells st ! a | None \<Rightarrow> []);
          (rs, st1) = new_texts st (unpack_into base [])
      in (rs, case v_rules vc of
                Some d \<Rightarrow> (if d \<noteq> [] then texts_update st1 rs d else st1)
              | None \<Rightarrow> st1))"

definition merge_skills :: "store \<Rightarrow> profile_obj \<Rightarrow> variant_override \<Rightarrow> addr \<times> store" where
  "merge_skills st profile vc =
     (let base = (case skills profile of Some a \<Rightarrow> text_cells st ! a | None \<Rightarrow> []);
          (ss, st1) = new_texts st (unpack_into base [])
      in (ss, case v_skills vc of
                Some d \<Rightarrow> (if d \<noteq> [] then texts_update st1 ss d else st1)
              | None \<Rightarrow> st1))"

text \<open>
  Lines 262 to 269. \<^verbatim>\<open>profile.get("settings", {})\<close> returns the profile's own dictionary
  object when the field is present (no copy is made), and a new empty dictionary
  otherwise. The loop assigns into that object: a merged new dictionary when the
  override value and the current value are both dictionaries, the override value
  otherwise.
\<close>

definition settings_value :: "dict \<Rightarrow> string \<Rightarrow> json \<Rightarrow> json" where
  "settings_value cur key val =
     (case (val, map_of cur key) of
        (JDict v, Some (JDict c)) \<Rightarrow> JDict (unpack_into v (unpack_into c []))
      | _ \<Rightarrow> val)"

definition merge_settings :: "store \<Rightarrow> profile_obj \<Rightarrow> variant_override \<Rightarrow> addr \<times> store" where
  "merge_settings st profile vc =
     (let (s, st1) = (case settings profile of Some a \<Rightarrow> (a, st) | None \<Rightarrow> new_dict st [])
      in (s, case v_settings_merge vc of
               Some m \<Rightarrow>
                 (if m \<noteq> []
                  then fold (\<lambda>(key, val) st'.
                         dict_setitem st' s key (settings_value (json_cells st' ! s) key val)) m st1
                  else st1)
             | None \<Rightarrow> st1))"

text \<open>
  The effective configuration: the five merges in the order in which \<^verbatim>\<open>apply_profile\<close>
  performs them, and the values of the five local variables at the end.
\<close>

record config =
  cfg_mcp_servers :: dict
  cfg_claude_md :: string
  cfg_rules :: texts
  cfg_skills :: texts
  cfg_settings :: dict

definition merge_profile :: "store \<Rightarrow> profile_obj \<Rightarrow> string option \<Rightarrow> config \<times> store" where
  "merge_profile st profile variant =
     (let vc = variant_config profile variant;
          (mcp_a, st1) = merge_mcp_servers st profile vc;
          md = merge_claude_md profile vc;
          (rules_a, st2) = merge_rules st1 profile vc;
          (skills_a, st3) = merge_skills st2 profile vc;
          (settings_a, st4) = merge_settings st3 profile vc
      in (\<lparr>cfg_mcp_servers = json_cells st4 ! mcp_a, cfg_claude_md = md,
            cfg_rules = text_cells st4 ! rules_a, cfg_skills = text_cells st4 ! skills_a,
            cfg_settings = json_cells st4 ! settings_a\<rparr>, st4))"

section \<open>Writing the artifacts\<close>

text \<open>
  \<^verbatim>\<open>p / s\<close> for a relative \<^verbatim>\<open>s\<close> without \<^verbatim>\<open>..\<close>; \<^verbatim>\<open>write_text\<close>;
  \<^verbatim>\<open>mkdir(parents=True, exist_ok=True)\<close>, which creates every missing ancestor;
  \<^verbatim>\<open>shutil.copy2\<close> of a file; and writing to a file opened in mode \<^verbatim>\<open>"a"\<close>. Failures of
  the operating system while writing (permissions, a file where a directory is needed) are
  not modelled.
\<close>

definition NL :: string where
  "NL = [CHR 0x0A]"

definition joinpath :: "path \<Rightarrow> string \<Rightarrow> path" where
  "joinpath p s = p @ pattern_parts s"

definition write_text :: "filesystem \<Rightarrow> path \<Rightarrow> string \<Rightarrow> filesystem" where
  "write_text fs p s = AList.update p (File s) fs"

definition mkdir_parents :: "filesystem \<Rightarrow> path \<Rightarrow> filesystem" where
  "mkdir_parents fs p =
     fold (\<lambda>q fs'. if exists fs' q then fs' else AList.update q Dir fs') (tl (prefixes p)) fs"

definition copy2 :: "filesystem \<Rightarrow> path \<Rightarrow> path \<Rightarrow> error + filesystem" where
  "copy2 fs src dst = bind (read_text fs src) (\<lambda>content. Inr (write_text fs dst content))"

definition append_text :: "filesystem \<Rightarrow> path \<Rightarrow> string \<Rightarrow> error + filesystem" where
  "append_text fs p s =
     (case map_of fs p of
        None \<Rightarrow> Inr (write_text fs p s)
      | Some (File content) \<Rightarrow> Inr (write_text fs p (content @ s))
      | Some Dir \<Rightarrow> Inl IsADirectoryError)"

text \<open>
  \<^verbatim>\<open>with_suffix\<close>: the last component loses what follows its last dot and gets the new
  suffix.
\<close>

definition with_suffix :: "path \<Rightarrow> string \<Rightarrow> path" where
  "with_suffix p sfx =
     (let name = last p;
          stem = (if CHR ''.'' \<in> set name
                  then rev (tl (dropWhile (\<lambda>c. c \<noteq> CHR ''.'') (rev name))) else name)
      in butlast p @ [stem @ sfx])"

text \<open>Step 1: the two directories.\<close>

definition make_dirs :: "bool \<Rightarrow> path \<Rightarrow> filesystem \<Rightarrow> filesystem" where
  "make_dirs dry_run path fs =
     fold (\<lambda>d fs'. let target = joinpath path d in
             if \<not> exists fs' target then (if \<not> dry_run then mkdir_parents fs' target else fs')
             else fs')
       [''.claude/rules'', ''.claude/skills''] fs"

text \<open>Step 2: the manifest, written only when the merged dictionary is not empty.\<close>

definition write_mcp_json ::
  "(json \<Rightarrow> string) \<Rightarrow> bool \<Rightarrow> path \<Rightarrow> dict \<Rightarrow> filesystem \<Rightarrow> filesystem" where
  "write_mcp_json dumps dry_run path mcp fs =
     (if mcp \<noteq> [] then
        (let mcp_json = JDict [(''mcpServers'', JDict mcp)];
             mcp_path = joinpath path ''.mcp.json''
         in if \<not> dry_run then write_text fs mcp_path (dumps mcp_json @ NL) else fs)
      else fs)"

text \<open>Step 3: the instructions file, with a backup copy of a file already there.\<close>

definition write_claude_md :: "bool \<Rightarrow> path \<Rightarrow> string \<Rightarrow> filesystem \<Rightarrow> error + filesystem" where
  "write_claude_md dry_run path md fs =
     (if md \<noteq> [] then
        (let claude_md_path = joinpath (joinpath path ''.claude'') ''CLAUDE.md'' in
         bind (if exists fs claude_md_path \<and> \<not> dry_run
               then copy2 fs claude_md_path (with_suffix claude_md_path ''.md.bak'')
               else Inr fs)
           (\<lambda>fs1. Inr (if \<not> dry_run then write_text fs1 claude_md_path (md @ NL) else fs1)))
      else Inr fs)"

text \<open>Steps 4 and 5: one file for each rule, one directory with one file for each skill.\<close>

fun write_rules :: "bool \<Rightarrow> path \<Rightarrow> texts \<Rightarrow> filesystem \<Rightarrow> filesystem" where
  "write_rules dry_run path [] fs = fs"
| "write_rules dry_run path ((rule_name, rule_content) # items) fs =
     (let rule_path = joinpath (joinpath (joinpath path ''.claude'') ''rules'') (rule_name @ ''.md'')
      in write_rules dry_run path items
           (if \<not> dry_run then write_text fs rule_path (rule_content @ NL) else fs))"

fun write_skills :: "bool \<Rightarrow> path \<Rightarrow> texts \<Rightarrow> filesystem \<Rightarrow> filesystem" where
  "write_skills dry_run path [] fs = fs"
| "write_skills dry_run path ((skill_name, skill_content) # items) fs =
     (let skill_dir = joinpath (joinpath (joinpath path ''.claude'') ''skills'') skill_name
      in write_skills dry_run path items
           (if \<not> dry_run
            then write_text (mkdir_parents fs skill_dir) (joinpath skill_dir ''SKILL.md'')
                   (skill_content @ NL)
            else fs))"

text \<open>Step 6: the settings file, written only when the settings are not empty.\<close>

definition write_settings ::
  "(json \<Rightarrow> string) \<Rightarrow> bool \<Rightarrow> path \<Rightarrow> dict \<Rightarrow> filesystem \<Rightarrow> filesystem" where
  "write_settings dumps dry_run path stg fs =
     (if stg \<noteq> [] then
        (let settings_path = joinpath (joinpath path ''.claude'') ''settings.json''
         in if \<not> dry_run then write_text fs settings_path (dumps (JDict stg) @ NL) else fs)
      else fs)"

text \<open>
  Step 7: the ignore file. An entry is new when it is not a substring of the text read
  (\<^verbatim>\<open>e not in existing_gitignore\<close> on two strings).
\<close>

definition gitignore_entries :: "string list" where
  "gitignore_entries = [''.claude/settings.local.json'', ''.claude/CLAUDE.local.md'']"

definition new_entries :: "string \<Rightarrow> string list" where
  "new_entries existing_gitignore =
     filter (\<lambda>e. \<not> sublist e existing_gitignore) gitignore_entries"

definition update_gitignore :: "bool \<Rightarrow> path \<Rightarrow> filesystem \<Rightarrow> error + filesystem" where
  "update_gitignore dry_run path fs =
     (let gitignore_path = joinpath path ''.gitignore'' in
      bind (if exists fs gitignore_path then read_text fs gitignore_path else Inr [])
        (\<lambda>existing_gitignore.
           if new_entries existing_gitignore \<noteq> [] then
             (if \<not> dry_run
              then append_text fs gitignore_path
                     (NL @ ''# Claude Code (local)'' @ NL
                      @ concat (map (\<lambda>entry. entry @ NL) (new_entries existing_gitignore)))
              else Inr fs)
           else Inr fs))"

section \<open>\<^verbatim>\<open>apply_profile\<close>\<close>

text \<open>
  The result of a run that returns: the store, the file system, and the local variables of
  the function at its end (the dictionaries as addresses in the store).
\<close>

record frame =
  f_store :: store
  f_files :: filesystem
  f_profile :: profile_obj
  f_variant :: "string option"
  f_mcp_servers :: addr
  f_claude_md :: string
  f_rules :: addr
  f_skills :: addr
  f_settings :: addr

definition apply_profile ::
  "(string \<Rightarrow> json option) \<Rightarrow> (json \<Rightarrow> string) \<Rightarrow> profile_dirs \<Rightarrow> store \<Rightarrow> filesystem \<Rightarrow>
   string \<Rightarrow> string option \<Rightarrow> path \<Rightarrow> bool \<Rightarrow> error + frame" where
  "apply_profile loads dumps dirs st fs profile_name variant directory dry_run =
     bind (load_profile dirs st profile_name) (\<lambda>(profile, st0).
     let path = directory in
     bind (case variant of
             None \<Rightarrow> detect_variant loads fs profile_name directory
           | Some v \<Rightarrow> Inr (Some v)) (\<lambda>variant'.
     let vc = variant_config profile variant';
         fs1 = make_dirs dry_run path fs;
         (mcp_a, st1) = merge_mcp_servers st0 profile vc;
         fs2 = write_mcp_json dumps dry_run path (json_cells st1 ! mcp_a) fs1;
         md = merge_claude_md profile vc
     in
     bind (write_claude_md dry_run path md fs2) (\<lambda>fs3.
     let (rules_a, st2) = merge_rules st1 profile vc;
         fs4 = write_rules dry_run path (text_cells st2 ! rules_a) fs3;
         (skills_a, st3) = merge_skills st2 profile vc;
         fs5 = write_skills dry_run path (text_cells st3 ! skills_a) fs4;
         (settings_a, st4) = merge_settings st3 profile vc;
         fs6 = write_settings dumps dry_run path (json_cells st4 ! settings_a) fs5
     in
     bind (update_gitignore dry_run path fs6) (\<lambda>fs7.
       Inr \<lparr>f_store = st4, f_files = fs7, f_profile = profile, f_variant = variant',
            f_mcp_servers = mcp_a, f_claude_md = md, f_rules = rules_a, f_skills = skills_a,
            f_settings = settings_a\<rparr>))))"

section \<open>Auxiliary definitions for the statements\<close>

text \<open>No marker of any of the given rules has a match in the directory.\<close>

definition no_marker_matches :: "filesystem \<Rightarrow> path \<Rightarrow> detection_rule list \<Rightarrow> bool" where
  "no_marker_matches fs p rs =
     list_all (\<lambda>(markers, profile, variant). list_all (\<lambda>m. glob fs p m = []) markers) rs"

text \<open>A rule has a marker with a match; the pair that a rule contributes.\<close>

definition rule_matches :: "filesystem \<Rightarrow> path \<Rightarrow> detection_rule \<Rightarrow> bool" where
  "rule_matches fs p r =
     (case r of (markers, profile, variant) \<Rightarrow> list_ex (\<lambda>m. glob fs p m \<noteq> []) markers)"

definition rule_entry :: "detection_rule \<Rightarrow> string \<times> string option" where
  "rule_entry r = (case r of (markers, profile, variant) \<Rightarrow> (profile, variant))"



text \<open>
  The references of a profile object point into the store. \<^verbatim>\<open>json.load\<close> establishes
  this, and Python has no dangling reference.
\<close>

definition valid_refs :: "store \<Rightarrow> profile_obj \<Rightarrow> bool" where
  "valid_refs st p =
     ((case mcp_servers p of Some a \<Rightarrow> a < length (json_cells st) | None \<Rightarrow> True)
    \<and> (case settings p of Some a \<Rightarrow> a < length (json_cells st) | None \<Rightarrow> True)
    \<and> (case rules p of Some a \<Rightarrow> a < length (text_cells st) | None \<Rightarrow> True)
    \<and> (case skills p of Some a \<Rightarrow> a < length (text_cells st) | None \<Rightarrow> True))"

definition in_range :: "'a list \<Rightarrow> addr option \<Rightarrow> bool" where
  "in_range cells r = (case r of Some a \<Rightarrow> a < length cells | None \<Rightarrow> True)"

definition cell_or_empty :: "'a list list \<Rightarrow> addr option \<Rightarrow> 'a list" where
  "cell_or_empty cells r = (case r of Some a \<Rightarrow> cells ! a | None \<Rightarrow> [])"

text \<open>
  The contents of the dictionaries that the merge steps build, as functions of the contents
  they start from; the lemmas below relate them to the steps on the store.
\<close>

definition mcp_value :: "dict \<Rightarrow> variant_override \<Rightarrow> dict" where
  "mcp_value base vc =
     fold AList.delete (case v_exclude_mcps vc of Some l \<Rightarrow> l | None \<Rightarrow> [])
       (unpack_into (case v_mcp_servers vc of Some d \<Rightarrow> d | None \<Rightarrow> []) (unpack_into base []))"

definition texts_value :: "texts \<Rightarrow> texts option \<Rightarrow> texts" where
  "texts_value base upd =
     unpack_into (case upd of Some d \<Rightarrow> d | None \<Rightarrow> []) (unpack_into base [])"

definition settings_loop :: "dict \<Rightarrow> dict \<Rightarrow> dict" where
  "settings_loop m cur = fold (\<lambda>(key, val) c. AList.update key (settings_value c key val) c) m cur"

definition settings_merge_of :: "variant_override \<Rightarrow> dict" where
  "settings_merge_of vc = (case v_settings_merge vc of Some m \<Rightarrow> m | None \<Rightarrow> [])"

definition merged_config :: "store \<Rightarrow> profile_obj \<Rightarrow> variant_override \<Rightarrow> config" where
  "merged_config st p vc =
     \<lparr>cfg_mcp_servers = mcp_value (cell_or_empty (json_cells st) (mcp_servers p)) vc,
      cfg_claude_md = merge_claude_md p vc,
      cfg_rules = texts_value (cell_or_empty (text_cells st) (rules p)) (v_rules vc),
      cfg_skills = texts_value (cell_or_empty (text_cells st) (skills p)) (v_skills vc),
      cfg_settings = settings_loop (settings_merge_of vc) (cell_or_empty (json_cells st) (settings p))\<rparr>"

text \<open>The effective configuration that a run of \<^verbatim>\<open>apply_profile\<close> ends with.\<close>

definition effective_config :: "frame \<Rightarrow> config" where
  "effective_config fr =
     \<lparr>cfg_mcp_servers = json_cells (f_store fr) ! f_mcp_servers fr,
      cfg_claude_md = f_claude_md fr,
      cfg_rules = text_cells (f_store fr) ! f_rules fr,
      cfg_skills = text_cells (f_store fr) ! f_skills fr,
      cfg_settings = json_cells (f_store fr) ! f_settings fr\<rparr>"

text \<open>The lines of a text, split at the newline character.\<close>

fun lines_acc :: "string \<Rightarrow> string \<Rightarrow> string list" where
  "lines_acc acc [] = (if acc = [] then [] else [acc])"
| "lines_acc acc (c # cs) =
     (if c = CHR 0x0A then acc # lines_acc [] cs else lines_acc (acc @ [c]) cs)"

definition lines_of :: "string \<Rightarrow> string list" where
  "lines_of s = lines_acc [] s"

subsection \<open>Example inputs\<close>

definition fs_pom :: filesystem where
  "fs_pom = [([''proj''], Dir), ([''proj'', ''pom.xml''], File ''<project/>'')]"

definition fs_pom_make :: filesystem where
  "fs_pom_make =
     [([''proj''], Dir), ([''proj'', ''pom.xml''], File ''<project/>''),
      ([''proj'', ''Makefile''], File ''all:'')]"

definition fs_pom_gradle :: filesystem where
  "fs_pom_gradle =
     [([''proj''], Dir), ([''proj'', ''pom.xml''], File ''<project/>''),
      ([''proj'', ''build.gradle''], File ''plugins {}'')]"

text \<open>
  The values of \<^verbatim>\<open>json.loads\<close> on two texts: an empty JSON array, and a manifest with one
  regular and one development dependency. Every other text is taken as unparseable.
\<close>

definition sample_manifest :: string where
  "sample_manifest = ''{\"dependencies\": {\"react\": \"18\"}, \"devDependencies\": {\"next\": \"14\"}}''"

definition loads_sample :: "string \<Rightarrow> json option" where
  "loads_sample t =
     (if t = ''[]'' then Some (JList [])
      else if t = sample_manifest
      then Some (JDict [(''dependencies'', JDict [(''react'', JStr ''18'')]),
                        (''devDependencies'', JDict [(''next'', JStr ''14'')])])
      else None)"


text \<open>
  A profile with two variants: \<^verbatim>\<open>gradle\<close> adds a server, adds and excludes \<^verbatim>\<open>github\<close>,
  and merges settings; \<^verbatim>\<open>bare\<close> excludes every server.
\<close>

definition empty_store :: store where
  "empty_store = \<lparr>json_cells = [], text_cells = []\<rparr>"

definition gradle_variant :: variant_override where
  "gradle_variant =
     \<lparr>v_mcp_servers = Some [(''gradle'', JDict [(''command'', JStr ''gradle-mcp'')]),
                            (''github'', JDict [(''type'', JStr ''sse'')])],
      v_exclude_mcps = Some [''github''],
      v_claude_md_append = Some ''Use the Gradle wrapper.'',
      v_rules = Some [(''build'', ''Run ./gradlew check.'')],
      v_skills = None,
      v_settings_merge =
        Some [(''permissions'', JDict [(''allow'', JList [JStr ''Bash(./gradlew:*)''])]),
              (''model'', JStr ''sonnet'')]\<rparr>"

definition bare_variant :: variant_override where
  "bare_variant = empty_variant\<lparr>v_exclude_mcps := Some [''context7'', ''github'']\<rparr>"

definition java_settings :: dict where
  "java_settings =
     [(''permissions'', JDict [(''allow'', JList [JStr ''Bash(mvn:*)'']), (''deny'', JList [])]),
      (''cleanupPeriodDays'', JNum 30)]"

definition java_profile :: profile_doc where
  "java_profile =
     \<lparr>display_name = Some ''Java'', description = Some ''Java projects'',
      mcp_servers = Some [(''context7'', JDict [(''command'', JStr ''npx'')]),
                          (''github'', JDict [(''type'', JStr ''http'')])],
      claude_md = Some ''# Java'',
      rules = Some [(''style'', ''Prefer records.'')],
      skills = Some [(''test'', ''Run the tests.'')],
      settings = Some java_settings,
      variants = Some [(''gradle'', gradle_variant), (''bare'', bare_variant)]\<rparr>"

definition sample_dirs :: profile_dirs where
  "sample_dirs = \<lparr>PROFILES_DIR = None, BUILTIN_PROFILES_DIR = [(''java'', java_profile)]\<rparr>"

text \<open>A stand-in for \<^verbatim>\<open>json.dumps\<close>: the text written is of no concern below.\<close>

definition dumps_sample :: "json \<Rightarrow> string" where
  "dumps_sample v = ''{}''"

text \<open>
  An ignore file whose only line holds the first entry behind a slash, and the text of that
  file after a run.
\<close>

definition gitignore_before :: string where
  "gitignore_before = ''/.claude/settings.local.json\<newline>''"

definition gitignore_after :: string where
  "gitignore_after =
     ''/.claude/settings.local.json\<newline>\<newline># Claude Code (local)\<newline>.claude/CLAUDE.local.md\<newline>''"

definition fs_gitignore :: filesystem where
  "fs_gitignore =
     [([''proj''], Dir), ([''proj'', ''pom.xml''], File ''<project/>''),
      ([''proj'', ''.gitignore''], File gitignore_before)]"

section \<open>Properties of detection\<close>

subsection \<open>Globbing\<close>

lemma fnmatch_literal:
  "CHR ''*'' \<notin> set pat \<Longrightarrow> CHR ''?'' \<notin> set pat \<Longrightarrow> fnmatch name pat \<longleftrightarrow> name = pat"
  by (induction name pat rule: fnmatch.induct) auto

lemma scandir_iff: "name \<in> set (scandir fs p) \<longleftrightarrow> is_dir fs p \<and> exists fs (p @ [name])"
proof -
  have "(\<exists>q. q \<in> fst ` set fs \<and> q \<noteq> [] \<and> butlast q = p \<and> last q = name)
        \<longleftrightarrow> (p @ [name]) \<in> fst ` set fs"
    by (metis butlast_snoc last_snoc snoc_eq_iff_butlast)
  then show ?thesis
    by (auto simp: scandir_def exists_def map_of_eq_None_iff image_iff)
qed

lemma select_literal:
  "CHR ''*'' \<notin> set name \<Longrightarrow> CHR ''?'' \<notin> set name \<Longrightarrow>
   select_from fs [name] p \<noteq> [] \<longleftrightarrow> is_dir fs p \<and> exists fs (p @ [name])"
  by (auto simp: fnmatch_literal scandir_iff filter_empty_conv)



lemma glob_pom: "glob fs p ''pom.xml'' \<noteq> [] \<longleftrightarrow> is_dir fs p \<and> exists fs (p @ [''pom.xml''])"
  unfolding glob_def pattern_parts_def using select_literal[of "''pom.xml''" fs p]
  by simp

subsection \<open>The two loops\<close>

lemma scan_markers_no_match:
  "list_all (\<lambda>m. glob fs p m = []) markers \<Longrightarrow> scan_markers fs p markers entry detected = detected"
  by (induction markers) auto

lemma scan_rules_no_match:
  "no_marker_matches fs p rs \<Longrightarrow> scan_rules fs p rs detected = detected"
  by (induction rs arbitrary: detected) (auto simp: no_marker_matches_def scan_markers_no_match)

lemma scan_rules_append:
  "scan_rules fs p (rs1 @ rs2) detected = scan_rules fs p rs2 (scan_rules fs p rs1 detected)"
  by (induction rs1 arbitrary: detected) auto

lemma scan_markers_extends: "\<exists>rest. scan_markers fs p markers entry detected = detected @ rest"
  by (induction markers) auto

lemma scan_rules_extends: "\<exists>rest. scan_rules fs p rs detected = detected @ rest"
proof (induction rs arbitrary: detected)
  case Nil
  then show ?case by simp
next
  case (Cons r rs)
  obtain markers profile variant where r: "r = (markers, profile, variant)"
    by (cases r) auto
  obtain r1 where r1: "scan_markers fs p markers (profile, variant) detected = detected @ r1"
    using scan_markers_extends by blast
  obtain r2 where "scan_rules fs p rs (detected @ r1) = (detected @ r1) @ r2"
    using Cons.IH by blast
  then show ?case
    by (simp add: r r1)
qed


lemma scan_markers_distinct:
  "distinct detected \<Longrightarrow> distinct (scan_markers fs p markers entry detected)"
  by (induction markers) auto

lemma scan_rules_distinct:
  "distinct detected \<Longrightarrow> distinct (scan_rules fs p rs detected)"
  by (induction rs arbitrary: detected) (auto simp: scan_markers_distinct)

lemma rules_split:
  "DETECTION_RULES =
     take 3 DETECTION_RULES @ ([''pom.xml''], ''java'', Some ''maven'') # drop 4 DETECTION_RULES"
  by (simp add: DETECTION_RULES_def)

lemma detect_project_pom:
  assumes "is_dir fs d" and "exists fs (d @ [''pom.xml''])"
    and "no_marker_matches fs d (take 3 DETECTION_RULES)"
  shows "detect_project fs d = scan_rules fs d (drop 4 DETECTION_RULES) [(''java'', Some ''maven'')]"
proof -
  have g: "glob fs d ''pom.xml'' \<noteq> []"
    using assms(1,2) by (simp add: glob_pom)
  have "detect_project fs d =
      scan_rules fs d (([''pom.xml''], ''java'', Some ''maven'') # drop 4 DETECTION_RULES)
        (scan_rules fs d (take 3 DETECTION_RULES) [])"
    unfolding detect_project_def by (subst rules_split) (simp only: scan_rules_append)
  also have "scan_rules fs d (take 3 DETECTION_RULES) [] = []"
    using assms(3) by (rule scan_rules_no_match)
  finally show ?thesis
    using g by simp
qed

subsection \<open>A Maven project\<close>

text \<open>
  Claim C2, as the code has it. In a directory that holds \<^verbatim>\<open>pom.xml\<close> and no marker of
  the three rules before the Maven rule, \<^verbatim>\<open>detect_variant("java", directory)\<close> returns
  \<^verbatim>\<open>"maven"\<close>, and the list returned by \<^verbatim>\<open>detect_project\<close> begins with the pair
  \<^verbatim>\<open>("java", "maven")\<close>: the pair carries the variant of its rule. The list is that
  single pair when no marker of a later rule has a match either.
\<close>

theorem detect_pom:
  assumes "is_dir fs d" and "exists fs (d @ [''pom.xml''])"
    and "no_marker_matches fs d (take 3 DETECTION_RULES)"
  shows "detect_variant loads fs ''java'' d = Inr (Some ''maven'')
       \<and> (\<exists>rest. detect_project fs d = (''java'', Some ''maven'') # rest)
       \<and> (no_marker_matches fs d (drop 4 DETECTION_RULES)
            \<longrightarrow> detect_project fs d = [(''java'', Some ''maven'')])"
proof -
  have g: "glob fs d ''pom.xml'' \<noteq> []"
    using assms(1,2) by (simp add: glob_pom)
  have v: "detect_variant loads fs ''java'' d = Inr (Some ''maven'')"
    using g by (simp add: detect_variant_def java_variant_def)
  have p: "detect_project fs d = scan_rules fs d (drop 4 DETECTION_RULES) [(''java'', Some ''maven'')]"
    using assms by (rule detect_project_pom)
  have e: "\<exists>rest. detect_project fs d = (''java'', Some ''maven'') # rest"
    using scan_rules_extends[of fs d "drop 4 DETECTION_RULES" "[(''java'', Some ''maven'')]"] p
    by auto
  have s: "no_marker_matches fs d (drop 4 DETECTION_RULES)
            \<longrightarrow> detect_project fs d = [(''java'', Some ''maven'')]"
    using p by (simp add: scan_rules_no_match)
  show ?thesis using v e s by blast
qed

theorem detect_pom_witness:
  "is_dir fs_pom [''proj''] \<and> exists fs_pom ([''proj''] @ [''pom.xml''])
   \<and> no_marker_matches fs_pom [''proj''] (take 3 DETECTION_RULES)
   \<and> no_marker_matches fs_pom [''proj''] (drop 4 DETECTION_RULES)
   \<and> detect_variant loads_sample fs_pom ''java'' [''proj''] = Inr (Some ''maven'')
   \<and> detect_project fs_pom [''proj''] = [(''java'', Some ''maven'')]"
proof -
  have a: "is_dir fs_pom [''proj'']"
    by (simp add: is_dir_def fs_pom_def)
  have b: "exists fs_pom ([''proj''] @ [''pom.xml''])"
    by (simp add: exists_def fs_pom_def)
  have c: "no_marker_matches fs_pom [''proj''] (take 3 DETECTION_RULES)"
    by (simp add: DETECTION_RULES_def fs_pom_def glob_def is_dir_def
        scandir_def pattern_parts_def no_marker_matches_def)
  have d: "no_marker_matches fs_pom [''proj''] (drop 4 DETECTION_RULES)"
    by (simp add: DETECTION_RULES_def fs_pom_def glob_def is_dir_def
        scandir_def pattern_parts_def no_marker_matches_def)
  show ?thesis
    using detect_pom[OF a b c, of loads_sample] a b c d by simp
qed

text \<open>
  The claim as it was stated fails: with \<^verbatim>\<open>pom.xml\<close> alone the pair is
  \<^verbatim>\<open>("java", "maven")\<close>, not \<^verbatim>\<open>("java", None)\<close>; and with a \<^verbatim>\<open>Makefile\<close> beside it, which
  is a marker of a later rule, the list has two elements.
\<close>

theorem detect_pom_counterexample:
  "exists fs_pom [''proj'', ''pom.xml'']
   \<and> no_marker_matches fs_pom [''proj''] (take 3 DETECTION_RULES)
   \<and> detect_project fs_pom [''proj''] = [(''java'', Some ''maven'')]
   \<and> detect_project fs_pom [''proj''] \<noteq> [(''java'', None)]
   \<and> exists fs_pom_make [''proj'', ''pom.xml'']
   \<and> no_marker_matches fs_pom_make [''proj''] (take 3 DETECTION_RULES)
   \<and> detect_project fs_pom_make [''proj''] = [(''java'', Some ''maven''), (''cpp'', None)]"
  by (simp add: detect_project_def DETECTION_RULES_def fs_pom_def fs_pom_make_def glob_def
      is_dir_def scandir_def pattern_parts_def exists_def no_marker_matches_def)

subsection \<open>A directory that does not exist\<close>




subsection \<open>No entry twice\<close>

text \<open>
  Claim C6, as the code has it. The list returned by \<^verbatim>\<open>detect_project\<close> never holds the
  same pair of stack and variant twice. (A stack can occur twice, with different variants:
  the counterexample below.)
\<close>

theorem detect_project_distinct: "distinct (detect_project fs directory)"
  by (simp add: detect_project_def scan_rules_distinct)

theorem detect_project_distinct_witness: "distinct (detect_project fs_pom_gradle [''proj''])"
  by (rule detect_project_distinct)

text \<open>
  The claim as it was stated (each stack at most once) fails: with \<^verbatim>\<open>pom.xml\<close> and
  \<^verbatim>\<open>build.gradle\<close> side by side, the stack \<^verbatim>\<open>java\<close> is reported twice.
\<close>

theorem detect_project_stack_twice_counterexample:
  "detect_project fs_pom_gradle [''proj''] = [(''java'', Some ''maven''), (''java'', Some ''gradle'')]
   \<and> \<not> distinct (map fst (detect_project fs_pom_gradle [''proj'']))"
  by (simp add: detect_project_def DETECTION_RULES_def fs_pom_gradle_def glob_def
      is_dir_def scandir_def pattern_parts_def)

subsection \<open>The order of the result\<close>

lemma scan_markers_eq:
  "scan_markers fs p markers entry detected =
     (if list_ex (\<lambda>m. glob fs p m \<noteq> []) markers \<and> entry \<notin> set detected
      then detected @ [entry] else detected)"
  by (induction markers) auto

lemma scan_rules_eq:
  "distinct (map rule_entry rs) \<Longrightarrow> set (map rule_entry rs) \<inter> set detected = {} \<Longrightarrow>
   scan_rules fs p rs detected = detected @ map rule_entry (filter (rule_matches fs p) rs)"
proof (induction rs arbitrary: detected)
  case Nil
  then show ?case by simp
next
  case (Cons r rs)
  obtain markers profile variant where r: "r = (markers, profile, variant)"
    by (cases r) auto
  let ?e = "(profile, variant)"
  let ?d = "scan_markers fs p markers ?e detected"
  have re: "rule_entry r = ?e"
    by (simp add: r rule_entry_def)
  have ne: "?e \<notin> set (map rule_entry rs)" and d: "distinct (map rule_entry rs)"
    using Cons.prems(1) by (simp_all add: re)
  have e: "?e \<notin> set detected" and disj: "set (map rule_entry rs) \<inter> set detected = {}"
    using Cons.prems(2) by (simp_all add: re)
  have d': "?d = (if rule_matches fs p r then detected @ [?e] else detected)"
    using e by (simp add: scan_markers_eq rule_matches_def r)
  have "set (map rule_entry rs) \<inter> set ?d = {}"
    using disj ne unfolding d' by auto
  then have "scan_rules fs p rs ?d = ?d @ map rule_entry (filter (rule_matches fs p) rs)"
    by (rule Cons.IH[OF d])
  then show ?case
    by (simp add: r d' re[unfolded r])
qed

text \<open>
  The order of the rule table decides the order of the result: the list returned by
  \<^verbatim>\<open>detect_project\<close> holds exactly the pairs of the rules that have a marker with a
  match, in the order of the table.
\<close>

theorem detect_project_in_rule_order:
  "detect_project fs directory
     = map rule_entry (filter (rule_matches fs directory) DETECTION_RULES)"
proof -
  have "distinct (map rule_entry DETECTION_RULES)"
    by (simp add: DETECTION_RULES_def rule_entry_def)
  then show ?thesis
    by (simp add: detect_project_def scan_rules_eq)
qed

theorem detect_project_in_rule_order_witness:
  "detect_project fs_pom_make [''proj''] = [(''java'', Some ''maven''), (''cpp'', None)]"
proof -
  have "map rule_entry (filter (rule_matches fs_pom_make [''proj'']) DETECTION_RULES)
        = [(''java'', Some ''maven''), (''cpp'', None)]"
    by (simp add: DETECTION_RULES_def rule_entry_def rule_matches_def fs_pom_make_def glob_def
        is_dir_def scandir_def pattern_parts_def)
  then show ?thesis
    by (simp only: detect_project_in_rule_order)
qed

subsection \<open>The package manifest\<close>


lemma has_key_iff: "has_key d k \<longleftrightarrow> k \<in> fst ` set d"
  by (simp add: has_key_def map_of_eq_None_iff)







section \<open>Properties of the merge\<close>

subsection \<open>Loading\<close>

lemma json_load_valid: "json_load st0 doc = (p, st) \<Longrightarrow> valid_refs st p"
  by (auto simp: json_load_def valid_refs_def new_dict_def new_texts_def Let_def
      split: option.splits prod.splits)

lemma json_load_document: "json_load st0 doc = (p, st) \<Longrightarrow> document st p = doc"
  by (auto simp: json_load_def document_def new_dict_def new_texts_def Let_def nth_append
      split: option.splits prod.splits)

lemma json_load_variants: "json_load st0 P = (p, st) \<Longrightarrow> variants p = variants P"
  by (auto simp: json_load_def Let_def split: prod.splits)

lemma json_load_settings:
  "json_load st0 P = (p, st) \<Longrightarrow>
   cell_or_empty (json_cells st) (settings p) = (case settings P of Some d \<Rightarrow> d | None \<Rightarrow> [])"
  by (auto simp: json_load_def Let_def new_dict_def new_texts_def cell_or_empty_def nth_append
      split: prod.splits option.splits)


subsection \<open>Dictionaries\<close>

lemma keys_delete: "fst ` set (AList.delete k d) = fst ` set d - {k}"
proof -
  have "set (map fst (AList.delete k d)) = set (map fst d) - {k}"
    by (simp add: delete_keys)
  then show ?thesis by simp
qed

lemma keys_fold_delete: "fst ` set (fold AList.delete ks d) = fst ` set d - set ks"
proof (induction ks arbitrary: d)
  case Nil
  then show ?case by simp
next
  case (Cons k ks)
  have "fst ` set (fold AList.delete (k # ks) d) = fst ` set d - {k} - set ks"
    by (simp add: Cons.IH keys_delete)
  also have "\<dots> = fst ` set d - set (k # ks)"
    by (simp only: list.set) blast
  finally show ?case .
qed

lemma map_of_unpack_into:
  "distinct (map fst d) \<Longrightarrow> map_of (unpack_into d acc) = map_of acc ++ map_of d"
  unfolding unpack_into_def
proof (induction d arbitrary: acc)
  case Nil
  then show ?case by simp
next
  case (Cons kv d)
  obtain k v where kv: "kv = (k, v)" by (cases kv) auto
  have "k \<notin> fst ` set d" using Cons.prems kv by auto
  then have nk: "map_of d k = None" by (simp add: map_of_eq_None_iff)
  have d: "distinct (map fst d)" using Cons.prems by simp
  have "map_of (fold (\<lambda>(k, v). AList.update k v) d (AList.update k v acc))
        = map_of (AList.update k v acc) ++ map_of d"
    by (rule Cons.IH[OF d])
  also have "\<dots> = map_of acc ++ map_of ((k, v) # d)"
  proof (rule ext)
    fix x
    show "(map_of (AList.update k v acc) ++ map_of d) x = (map_of acc ++ map_of ((k, v) # d)) x"
      using nk by (cases "x = k") (simp_all add: update_conv' map_add_def split: option.splits)
  qed
  finally show ?case by (simp only: kv fold_simps case_prod_conv)
qed

lemma settings_value_cong:
  "map_of c1 key = map_of c2 key \<Longrightarrow> settings_value c1 key val = settings_value c2 key val"
  by (simp add: settings_value_def)

lemma map_of_settings_loop:
  "distinct (map fst m) \<Longrightarrow>
   map_of (settings_loop m cur) k =
     (case map_of m k of None \<Rightarrow> map_of cur k | Some v \<Rightarrow> Some (settings_value cur k v))"
proof (induction m arbitrary: cur)
  case Nil
  then show ?case by (simp add: settings_loop_def)
next
  case (Cons kv m)
  obtain key val where kv: "kv = (key, val)" by (cases kv) auto
  define cur' where "cur' = AList.update key (settings_value cur key val) cur"
  have dm: "distinct (map fst m)" and nk: "map_of m key = None"
    using Cons.prems kv by (auto simp: map_of_eq_None_iff)
  have step: "settings_loop ((key, val) # m) cur = settings_loop m cur'"
    by (simp add: settings_loop_def cur'_def)
  have ih: "map_of (settings_loop m cur') k =
     (case map_of m k of None \<Rightarrow> map_of cur' k | Some v \<Rightarrow> Some (settings_value cur' k v))"
    by (rule Cons.IH[OF dm])
  show ?case
    unfolding kv step ih
  proof (cases "k = key")
    case True
    then show "(case map_of m k of None \<Rightarrow> map_of cur' k | Some v \<Rightarrow> Some (settings_value cur' k v))
       = (case map_of ((key, val) # m) k of None \<Rightarrow> map_of cur k
          | Some v \<Rightarrow> Some (settings_value cur k v))"
      using nk by (simp add: cur'_def update_conv')
  next
    case False
    then have same: "map_of cur' k = map_of cur k"
      by (simp add: cur'_def update_conv')
    show "(case map_of m k of None \<Rightarrow> map_of cur' k | Some v \<Rightarrow> Some (settings_value cur' k v))
       = (case map_of ((key, val) # m) k of None \<Rightarrow> map_of cur k
          | Some v \<Rightarrow> Some (settings_value cur k v))"
      using False by (simp add: same settings_value_cong[OF same] cong: option.case_cong)
  qed
qed

subsection \<open>The steps on the store\<close>

lemma fold_dict_setitem:
  "a < length (json_cells st) \<Longrightarrow>
   fold (\<lambda>(key, val) st'. dict_setitem st' a key (settings_value (json_cells st' ! a) key val)) m st
     = st\<lparr>json_cells := (json_cells st)[a := settings_loop m (json_cells st ! a)]\<rparr>"
  by (induction m arbitrary: st) (simp_all add: dict_setitem_def settings_loop_def case_prod_beta)

lemma dict_update_new:
  "dict_update (st\<lparr>json_cells := cs @ [c]\<rparr>) (length cs) d = st\<lparr>json_cells := cs @ [unpack_into d c]\<rparr>"
  by (simp add: dict_update_def)

lemma texts_update_new:
  "texts_update (st\<lparr>text_cells := cs @ [c]\<rparr>) (length cs) d = st\<lparr>text_cells := cs @ [unpack_into d c]\<rparr>"
  by (simp add: texts_update_def)

lemma fold_dict_pop_new:
  "fold (\<lambda>excluded st'. dict_pop st' (length cs) excluded) ks (st\<lparr>json_cells := cs @ [c]\<rparr>)
     = st\<lparr>json_cells := cs @ [fold AList.delete ks c]\<rparr>"
  by (induction ks arbitrary: c) (simp_all add: dict_pop_def)

lemma unpack_into_Nil: "unpack_into [] acc = acc"
  by (simp add: unpack_into_def)

lemma merge_mcp_servers_eq:
  "merge_mcp_servers st p vc =
     (length (json_cells st),
      st\<lparr>json_cells := json_cells st @
            [mcp_value (case mcp_servers p of Some a \<Rightarrow> json_cells st ! a | None \<Rightarrow> []) vc]\<rparr>)"
proof -
  define base where "base = (case mcp_servers p of Some a \<Rightarrow> json_cells st ! a | None \<Rightarrow> [])"
  define d where "d = (case v_mcp_servers vc of Some d \<Rightarrow> d | None \<Rightarrow> [])"
  define st1 where "st1 = st\<lparr>json_cells := json_cells st @ [unpack_into base []]\<rparr>"
  have upd: "(case v_mcp_servers vc of
                Some d \<Rightarrow> (if d \<noteq> [] then dict_update st1 (length (json_cells st)) d else st1)
              | None \<Rightarrow> st1)
             = st\<lparr>json_cells := json_cells st @ [unpack_into d (unpack_into base [])]\<rparr>"
    unfolding st1_def d_def
    by (cases "v_mcp_servers vc") (simp_all add: dict_update_new unpack_into_Nil)
  show ?thesis
    unfolding merge_mcp_servers_def new_dict_def Let_def case_prod_conv
    unfolding base_def[symmetric] st1_def[symmetric] upd
    by (simp add: fold_dict_pop_new mcp_value_def d_def)
qed

lemma merge_rules_eq:
  "merge_rules st p vc =
     (length (text_cells st),
      st\<lparr>text_cells := text_cells st @
            [texts_value (case rules p of Some a \<Rightarrow> text_cells st ! a | None \<Rightarrow> []) (v_rules vc)]\<rparr>)"
  unfolding merge_rules_def new_texts_def Let_def case_prod_conv texts_value_def
  by (cases "v_rules vc") (simp_all add: texts_update_new unpack_into_Nil)

lemma merge_skills_eq:
  "merge_skills st p vc =
     (length (text_cells st),
      st\<lparr>text_cells := text_cells st @
            [texts_value (case skills p of Some a \<Rightarrow> text_cells st ! a | None \<Rightarrow> []) (v_skills vc)]\<rparr>)"
  unfolding merge_skills_def new_texts_def Let_def case_prod_conv texts_value_def
  by (cases "v_skills vc") (simp_all add: texts_update_new unpack_into_Nil)

lemma settings_loop_Nil: "settings_loop [] cur = cur"
  by (simp add: settings_loop_def)

lemma merge_settings_old:
  assumes "settings p = Some a" and "a < length (json_cells st)"
  shows "merge_settings st p vc =
     (a, st\<lparr>json_cells := (json_cells st)[a :=
            settings_loop (case v_settings_merge vc of Some m \<Rightarrow> m | None \<Rightarrow> []) (json_cells st ! a)]\<rparr>)"
  unfolding merge_settings_def Let_def
  using assms
  by (cases "v_settings_merge vc") (simp_all add: fold_dict_setitem settings_loop_Nil)

lemma merge_settings_new:
  assumes "settings p = None"
  shows "merge_settings st p vc =
     (length (json_cells st),
      st\<lparr>json_cells := json_cells st @
         [settings_loop (case v_settings_merge vc of Some m \<Rightarrow> m | None \<Rightarrow> []) []]\<rparr>)"
  unfolding merge_settings_def Let_def new_dict_def
  using assms
  by (cases "v_settings_merge vc") (simp_all add: fold_dict_setitem settings_loop_Nil)

lemma cell_or_empty_append:
  "in_range cells r \<Longrightarrow> cell_or_empty (cells @ xs) r = cell_or_empty cells r"
  by (cases r) (simp_all add: cell_or_empty_def in_range_def nth_append)

lemma merge_mcp_servers_fields:
  "fst (merge_mcp_servers st p vc) = length (json_cells st)"
  "json_cells (snd (merge_mcp_servers st p vc))
     = json_cells st @ [mcp_value (cell_or_empty (json_cells st) (mcp_servers p)) vc]"
  "text_cells (snd (merge_mcp_servers st p vc)) = text_cells st"
  by (simp_all add: merge_mcp_servers_eq cell_or_empty_def)

lemma merge_rules_fields:
  "fst (merge_rules st p vc) = length (text_cells st)"
  "text_cells (snd (merge_rules st p vc))
     = text_cells st @ [texts_value (cell_or_empty (text_cells st) (rules p)) (v_rules vc)]"
  "json_cells (snd (merge_rules st p vc)) = json_cells st"
  by (simp_all add: merge_rules_eq cell_or_empty_def)

lemma merge_skills_fields:
  "fst (merge_skills st p vc) = length (text_cells st)"
  "text_cells (snd (merge_skills st p vc))
     = text_cells st @ [texts_value (cell_or_empty (text_cells st) (skills p)) (v_skills vc)]"
  "json_cells (snd (merge_skills st p vc)) = json_cells st"
  by (simp_all add: merge_skills_eq cell_or_empty_def)

lemma merge_settings_text: "text_cells (snd (merge_settings st p vc)) = text_cells st"
proof (cases "settings p")
  case None
  then show ?thesis by (simp add: merge_settings_new)
next
  case (Some a)
  have "text_cells (fold (\<lambda>(key, val) st'.
          dict_setitem st' a key (settings_value (json_cells st' ! a) key val)) m st') = text_cells st'"
    for m st'
    by (induction m arbitrary: st') (simp_all add: dict_setitem_def case_prod_beta)
  then show ?thesis
    by (simp add: merge_settings_def Some split: option.splits)
qed

lemma merge_settings_fields_old:
  assumes "settings p = Some a" and "a < length (json_cells st)"
  shows "fst (merge_settings st p vc) = a"
    and "json_cells (snd (merge_settings st p vc))
          = (json_cells st)[a := settings_loop (settings_merge_of vc) (json_cells st ! a)]"
  by (simp_all add: merge_settings_old[OF assms] settings_merge_of_def)

lemma merge_settings_fields_new:
  assumes "settings p = None"
  shows "fst (merge_settings st p vc) = length (json_cells st)"
    and "json_cells (snd (merge_settings st p vc))
          = json_cells st @ [settings_loop (settings_merge_of vc) []]"
  by (simp_all add: merge_settings_new[OF assms] settings_merge_of_def)

lemma valid_refs_in_range:
  "valid_refs st p \<Longrightarrow> in_range (json_cells st) (mcp_servers p)"
  "valid_refs st p \<Longrightarrow> in_range (json_cells st) (settings p)"
  "valid_refs st p \<Longrightarrow> in_range (text_cells st) (rules p)"
  "valid_refs st p \<Longrightarrow> in_range (text_cells st) (skills p)"
  by (simp_all add: valid_refs_def in_range_def)

lemma merge_profile_config:
  assumes "valid_refs st p"
  shows "fst (merge_profile st p variant) = merged_config st p (variant_config p variant)"
proof (cases "settings p")
  case None
  show ?thesis
    by (simp add: merge_profile_def merged_config_def case_prod_beta Let_def
        merge_mcp_servers_fields merge_rules_fields merge_skills_fields merge_settings_text
        merge_settings_fields_new[OF None] cell_or_empty_append valid_refs_in_range[OF assms]
        nth_append None cell_or_empty_def[of _ None])
next
  case (Some a)
  have a: "a < length (json_cells st)"
    using assms Some by (simp add: valid_refs_def)
  have s: "fst (merge_settings st' p vc) = a"
    "json_cells (snd (merge_settings st' p vc))
          = (json_cells st')[a := settings_loop (settings_merge_of vc) (json_cells st' ! a)]"
    if "a < length (json_cells st')" for st' vc
    using merge_settings_fields_old[OF Some that] by simp_all
  show ?thesis
    using a
    by (simp add: merge_profile_def merged_config_def case_prod_beta Let_def
        merge_mcp_servers_fields merge_rules_fields merge_skills_fields merge_settings_text
        s cell_or_empty_append valid_refs_in_range[OF assms]
        nth_append Some cell_or_empty_def[of _ "Some a"])
qed

subsection \<open>The example profile\<close>

lemma loaded_pair:
  "json_load empty_store java_profile
     = (fst (json_load empty_store java_profile), snd (json_load empty_store java_profile))"
  by simp

lemma gradle_config:
  "variant_config (fst (json_load empty_store java_profile)) (Some ''gradle'') = gradle_variant"
  unfolding variant_config_def json_load_variants[OF loaded_pair]
  by (simp add: java_profile_def py_get_def)

subsection \<open>A variant that the profile does not have\<close>

text \<open>
  Claim C3. For a loaded profile and a variant name that is not a key of its
  \<^verbatim>\<open>variants\<close> (or a profile without that field), merging with that name gives the same
  effective configuration, and the same store, as merging with no variant. The merge is a
  total function on profile documents: there is no error to raise.
\<close>

theorem merge_unknown_variant:
  assumes "json_load st0 P = (p, st)"
    and "\<not> has_key (case variants P of Some vs \<Rightarrow> vs | None \<Rightarrow> []) V"
  shows "merge_profile st p (Some V) = merge_profile st p None"
proof -
  have "variant_config p (Some V) = empty_variant"
    using assms(2) json_load_variants[OF assms(1)]
    by (simp add: variant_config_def py_get_def has_key_def split: option.splits)
  moreover have "variant_config p None = empty_variant"
    by (simp add: variant_config_def)
  ultimately show ?thesis
    by (simp add: merge_profile_def)
qed

theorem merge_unknown_variant_witness:
  "\<not> has_key (case variants java_profile of Some vs \<Rightarrow> vs | None \<Rightarrow> []) ''maven''
   \<and> merge_profile (snd (json_load empty_store java_profile))
         (fst (json_load empty_store java_profile)) (Some ''maven'')
     = merge_profile (snd (json_load empty_store java_profile))
         (fst (json_load empty_store java_profile)) None"
proof -
  have a: "json_load empty_store java_profile
     = (fst (json_load empty_store java_profile), snd (json_load empty_store java_profile))"
    by simp
  have b: "\<not> has_key (case variants java_profile of Some vs \<Rightarrow> vs | None \<Rightarrow> []) ''maven''"
    by (simp add: java_profile_def has_key_def)
  show ?thesis
    using merge_unknown_variant[OF a b] b by simp
qed

subsection \<open>Excluded servers\<close>

text \<open>
  Claim C4. No name listed in \<^verbatim>\<open>exclude_mcps\<close> of the variant configuration is a key of
  the merged \<^verbatim>\<open>mcp_servers\<close> of the effective configuration, whatever the variant's own
  \<^verbatim>\<open>mcp_servers\<close> adds: the names are popped after the update.
\<close>

theorem excluded_mcps_absent:
  assumes "json_load st0 P = (p, st)"
    and "variant_config p variant = V"
  shows "\<forall>k \<in> set (case v_exclude_mcps V of Some l \<Rightarrow> l | None \<Rightarrow> []).
           \<not> has_key (cfg_mcp_servers (fst (merge_profile st p variant))) k"
proof -
  have "cfg_mcp_servers (fst (merge_profile st p variant))
        = mcp_value (cell_or_empty (json_cells st) (mcp_servers p)) V"
    by (simp add: merge_profile_config[OF json_load_valid[OF assms(1)]] merged_config_def assms(2))
  then show ?thesis
    by (simp add: mcp_value_def has_key_iff keys_fold_delete)
qed

theorem excluded_mcps_absent_witness:
  "variant_config (fst (json_load empty_store java_profile)) (Some ''gradle'') = gradle_variant
   \<and> has_key (the (v_mcp_servers gradle_variant)) ''github''
   \<and> v_exclude_mcps gradle_variant = Some [''github'']
   \<and> \<not> has_key (cfg_mcp_servers (fst (merge_profile (snd (json_load empty_store java_profile))
         (fst (json_load empty_store java_profile)) (Some ''gradle'')))) ''github''"
proof -
  have a: "json_load empty_store java_profile
     = (fst (json_load empty_store java_profile), snd (json_load empty_store java_profile))"
    by simp
  have b: "variant_config (fst (json_load empty_store java_profile)) (Some ''gradle'') = gradle_variant"
    unfolding variant_config_def json_load_variants[OF a]
    by (simp add: java_profile_def py_get_def)
  have c: "v_exclude_mcps gradle_variant = Some [''github'']"
    and d: "has_key (the (v_mcp_servers gradle_variant)) ''github''"
    by (simp_all add: gradle_variant_def has_key_def)
  show ?thesis
    using excluded_mcps_absent[OF a b] b c d by simp
qed

subsection \<open>The settings\<close>

text \<open>
  Claim C8. Let \<open>S\<close> be the settings of the profile and \<open>M\<close> the \<^verbatim>\<open>settings_merge\<close> of the
  variant configuration (both empty when absent), the keys of \<open>M\<close> distinct as in every
  dictionary. In the merged settings, a key that \<open>M\<close> does not have keeps its value in
  \<open>S\<close>; a key whose values in \<open>S\<close> and in \<open>M\<close> are both dictionaries maps to a dictionary
  that is their union with the entries of \<open>M\<close> winning, so that an entry of the value in
  \<open>M\<close> replaces the entry of \<open>S\<close> whole, also when both are dictionaries; every other key
  of \<open>M\<close> maps to its value in \<open>M\<close>.
\<close>

theorem settings_one_level_merge:
  assumes "json_load st0 P = (p, st)"
    and "variant_config p variant = V"
    and "S = (case settings P of Some d \<Rightarrow> d | None \<Rightarrow> [])"
    and "M = (case v_settings_merge V of Some m \<Rightarrow> m | None \<Rightarrow> [])"
    and "distinct (map fst M)"
    and "merged = cfg_settings (fst (merge_profile st p variant))"
  shows "(\<forall>k. map_of M k = None \<longrightarrow> map_of merged k = map_of S k)
       \<and> (\<forall>k a b. map_of S k = Some (JDict a) \<and> map_of M k = Some (JDict b)
                   \<and> distinct (map fst a) \<and> distinct (map fst b)
            \<longrightarrow> (\<exists>d. map_of merged k = Some (JDict d) \<and> map_of d = map_of a ++ map_of b))
       \<and> (\<forall>k v. map_of M k = Some v
                 \<and> ((\<forall>b. v \<noteq> JDict b) \<or> (\<forall>a. map_of S k \<noteq> Some (JDict a)))
            \<longrightarrow> map_of merged k = Some v)"
proof -
  have m: "merged = settings_loop M S"
    by (simp add: assms(6) merge_profile_config[OF json_load_valid[OF assms(1)]] merged_config_def
        assms(2) settings_merge_of_def assms(4) json_load_settings[OF assms(1)] assms(3))
  have look: "map_of merged k =
     (case map_of M k of None \<Rightarrow> map_of S k | Some v \<Rightarrow> Some (settings_value S k v))" for k
    unfolding m by (rule map_of_settings_loop[OF assms(5)])
  have one: "map_of M k = None \<longrightarrow> map_of merged k = map_of S k" for k
    by (simp add: look)
  have two: "\<exists>d. map_of merged k = Some (JDict d) \<and> map_of d = map_of a ++ map_of b"
    if "map_of S k = Some (JDict a)" "map_of M k = Some (JDict b)"
      "distinct (map fst a)" "distinct (map fst b)" for k a b
  proof -
    have "map_of merged k = Some (JDict (unpack_into b (unpack_into a [])))"
      using that(1,2) by (simp add: look settings_value_def)
    moreover have "map_of (unpack_into b (unpack_into a [])) = map_of a ++ map_of b"
      by (simp add: map_of_unpack_into that(3,4))
    ultimately show ?thesis by blast
  qed
  have three: "map_of merged k = Some v"
    if "map_of M k = Some v" "(\<forall>b. v \<noteq> JDict b) \<or> (\<forall>a. map_of S k \<noteq> Some (JDict a))" for k v
    using that by (auto simp: look settings_value_def split: json.splits option.splits)
  show ?thesis
    using one two three by blast
qed

theorem settings_one_level_merge_witness:
  "map_of (cfg_settings (fst (merge_profile (snd (json_load empty_store java_profile))
       (fst (json_load empty_store java_profile)) (Some ''gradle'')))) ''cleanupPeriodDays''
     = Some (JNum 30)
   \<and> (\<exists>d. map_of (cfg_settings (fst (merge_profile (snd (json_load empty_store java_profile))
         (fst (json_load empty_store java_profile)) (Some ''gradle'')))) ''permissions''
           = Some (JDict d)
         \<and> map_of d ''allow'' = Some (JList [JStr ''Bash(./gradlew:*)''])
         \<and> map_of d ''deny'' = Some (JList []))
   \<and> map_of (cfg_settings (fst (merge_profile (snd (json_load empty_store java_profile))
       (fst (json_load empty_store java_profile)) (Some ''gradle'')))) ''model''
     = Some (JStr ''sonnet'')"
proof -
  let ?merged = "cfg_settings (fst (merge_profile (snd (json_load empty_store java_profile))
       (fst (json_load empty_store java_profile)) (Some ''gradle'')))"
  let ?M = "[(''permissions'', JDict [(''allow'', JList [JStr ''Bash(./gradlew:*)''])]),
              (''model'', JStr ''sonnet'')]"
  have S: "java_settings = (case settings java_profile of Some d \<Rightarrow> d | None \<Rightarrow> [])"
    by (simp add: java_profile_def)
  have M: "?M = (case v_settings_merge gradle_variant of Some m \<Rightarrow> m | None \<Rightarrow> [])"
    by (simp add: gradle_variant_def)
  have dist: "distinct (map fst ?M)"
    by simp
  note T = settings_one_level_merge[OF loaded_pair gradle_config S M dist refl]
  have one: "map_of ?merged ''cleanupPeriodDays'' = Some (JNum 30)"
    using T[THEN conjunct1, rule_format, of "''cleanupPeriodDays''"]
    by (simp add: java_settings_def)
  have "\<exists>d. map_of ?merged ''permissions'' = Some (JDict d)
      \<and> map_of d = map_of [(''allow'', JList [JStr ''Bash(mvn:*)'']), (''deny'', JList [])]
                    ++ map_of [(''allow'', JList [JStr ''Bash(./gradlew:*)''])]"
    by (rule T[THEN conjunct2, THEN conjunct1, rule_format]) (simp add: java_settings_def)
  then have two: "\<exists>d. map_of ?merged ''permissions'' = Some (JDict d)
         \<and> map_of d ''allow'' = Some (JList [JStr ''Bash(./gradlew:*)''])
         \<and> map_of d ''deny'' = Some (JList [])"
    by (auto simp: map_add_def)
  have three: "map_of ?merged ''model'' = Some (JStr ''sonnet'')"
    by (rule T[THEN conjunct2, THEN conjunct2, rule_format]) (simp add: java_settings_def)
  show ?thesis
    using one two three by blast
qed

subsection \<open>The loaded profile after the merge\<close>

text \<open>
  Claim C1 does not hold of the code. The dictionaries of servers, rules and skills are
  copied before they are updated, but \<^verbatim>\<open>settings\<close> is the profile's own dictionary
  object, and the loop of \<^verbatim>\<open>settings_merge\<close> assigns into it. In a dry run on the
  example profile with the variant \<^verbatim>\<open>gradle\<close>: the loaded profile stands for the document
  before the run; after it, its settings hold the merged values, and the profile no longer
  stands for the document it was loaded from.
\<close>

theorem apply_profile_mutates_settings:
  "(case apply_profile loads_sample dumps_sample sample_dirs empty_store fs_pom_gradle ''java''
          (Some ''gradle'') [''proj''] True of
      Inr fr \<Rightarrow>
        document (snd (json_load empty_store java_profile)) (f_profile fr) = java_profile
        \<and> settings (document (f_store fr) (f_profile fr))
            = Some [(''permissions'', JDict [(''allow'', JList [JStr ''Bash(./gradlew:*)'']),
                                             (''deny'', JList [])]),
                    (''cleanupPeriodDays'', JNum 30),
                    (''model'', JStr ''sonnet'')]
        \<and> document (f_store fr) (f_profile fr) \<noteq> java_profile
    | Inl e \<Rightarrow> False)"
  by code_simp

lemma json_load_refs_distinct:
  "json_load st0 P = (p, st) \<Longrightarrow> mcp_servers p = Some i \<Longrightarrow> settings p = Some j \<Longrightarrow> i \<noteq> j"
  by (auto simp: json_load_def Let_def new_dict_def new_texts_def split: option.splits prod.splits)

lemma merge_profile_store:
  assumes "valid_refs st p"
  shows "text_cells (snd (merge_profile st p variant))
           = text_cells st @ [cfg_rules (fst (merge_profile st p variant)),
                              cfg_skills (fst (merge_profile st p variant))]"
    and "\<And>a. a < length (json_cells st) \<Longrightarrow> settings p \<noteq> Some a \<Longrightarrow>
           json_cells (snd (merge_profile st p variant)) ! a = json_cells st ! a"
    and "\<And>a. settings p = Some a \<Longrightarrow>
           json_cells (snd (merge_profile st p variant)) ! a
             = settings_loop (settings_merge_of (variant_config p variant)) (json_cells st ! a)"
proof -
  let ?vc = "variant_config p variant"
  show "text_cells (snd (merge_profile st p variant))
           = text_cells st @ [cfg_rules (fst (merge_profile st p variant)),
                              cfg_skills (fst (merge_profile st p variant))]"
    by (simp add: merge_profile_config[OF assms] merged_config_def)
      (simp add: merge_profile_def case_prod_beta Let_def merge_settings_text merge_skills_fields
        merge_rules_fields merge_mcp_servers_fields cell_or_empty_append valid_refs_in_range[OF assms])
  show "json_cells (snd (merge_profile st p variant)) ! a = json_cells st ! a"
    if a: "a < length (json_cells st)" and n: "settings p \<noteq> Some a" for a
  proof (cases "settings p")
    case None
    show ?thesis
      using a
      by (simp add: merge_profile_def case_prod_beta Let_def merge_settings_fields_new[OF None]
          merge_skills_fields merge_rules_fields merge_mcp_servers_fields nth_append)
  next
    case (Some b)
    have b: "b < length (json_cells st)"
      using assms Some by (simp add: valid_refs_def)
    have s: "json_cells (snd (merge_settings st' p vc))
          = (json_cells st')[b := settings_loop (settings_merge_of vc) (json_cells st' ! b)]"
      if "b < length (json_cells st')" for st' vc
      using merge_settings_fields_old[OF Some that] by simp
    show ?thesis
      using a b n Some
      by (simp add: merge_profile_def case_prod_beta Let_def s
          merge_skills_fields merge_rules_fields merge_mcp_servers_fields nth_append)
  qed
  show "json_cells (snd (merge_profile st p variant)) ! a
             = settings_loop (settings_merge_of (variant_config p variant)) (json_cells st ! a)"
    if Some: "settings p = Some a" for a
  proof -
    have b: "a < length (json_cells st)"
      using assms Some by (simp add: valid_refs_def)
    have s: "json_cells (snd (merge_settings st' p vc))
          = (json_cells st')[a := settings_loop (settings_merge_of vc) (json_cells st' ! a)]"
      if "a < length (json_cells st')" for st' vc
      using merge_settings_fields_old[OF Some that] by simp
    show ?thesis
      using b
      by (simp add: merge_profile_def case_prod_beta Let_def s
          merge_skills_fields merge_rules_fields merge_mcp_servers_fields nth_append)
  qed
qed

text \<open>
  What does hold of the loaded profile: after the merge every field other than
  \<^verbatim>\<open>settings\<close> stands for what it did when the profile was loaded, and so does
  \<^verbatim>\<open>settings\<close> when the variant configuration has no \<^verbatim>\<open>settings_merge\<close> or an empty one.
\<close>

theorem merge_keeps_other_fields:
  assumes "json_load st0 P = (p, st)"
    and "st' = snd (merge_profile st p variant)"
  shows "display_name (document st' p) = display_name P
       \<and> description (document st' p) = description P
       \<and> mcp_servers (document st' p) = mcp_servers P
       \<and> claude_md (document st' p) = claude_md P
       \<and> rules (document st' p) = rules P
       \<and> skills (document st' p) = skills P
       \<and> variants (document st' p) = variants P
       \<and> (settings_merge_of (variant_config p variant) = [] \<longrightarrow> document st' p = P)"
proof -
  have v: "valid_refs st p"
    using assms(1) by (rule json_load_valid)
  have doc: "document st p = P"
    using assms(1) by (rule json_load_document)
  have t: "text_cells st' ! a = text_cells st ! a" if "a < length (text_cells st)" for a
    using that by (simp add: assms(2) merge_profile_store(1)[OF v] nth_append)
  have r: "rules (document st' p) = rules (document st p)"
    using valid_refs_in_range(3)[OF v] t
    by (cases "rules p") (simp_all add: document_def in_range_def)
  have k: "skills (document st' p) = skills (document st p)"
    using valid_refs_in_range(4)[OF v] t
    by (cases "skills p") (simp_all add: document_def in_range_def)
  have m: "mcp_servers (document st' p) = mcp_servers (document st p)"
  proof (cases "mcp_servers p")
    case None
    then show ?thesis by (simp add: document_def)
  next
    case (Some i)
    have i: "i < length (json_cells st)"
      using v Some by (simp add: valid_refs_def)
    have "settings p \<noteq> Some i"
      using json_load_refs_distinct[OF assms(1) Some] by auto
    then show ?thesis
      using merge_profile_store(2)[OF v i] by (simp add: document_def Some assms(2))
  qed
  have s: "settings (document st' p) = settings (document st p)"
    if "settings_merge_of (variant_config p variant) = []"
  proof (cases "settings p")
    case None
    then show ?thesis by (simp add: document_def)
  next
    case (Some a)
    show ?thesis
      using merge_profile_store(3)[OF v Some, of variant]
      by (simp add: document_def Some assms(2) that settings_loop_Nil)
  qed
  have others: "display_name (document st' p) = display_name (document st p)"
    "description (document st' p) = description (document st p)"
    "claude_md (document st' p) = claude_md (document st p)"
    "variants (document st' p) = variants (document st p)"
    by (simp_all add: document_def)
  have all: "settings_merge_of (variant_config p variant) = [] \<longrightarrow> document st' p = document st p"
    using r k m s others by (auto intro: profile.equality simp: document_def)
  show ?thesis
    using r k m others all unfolding doc by simp
qed

theorem merge_keeps_other_fields_witness:
  "mcp_servers (document (snd (merge_profile (snd (json_load empty_store java_profile))
       (fst (json_load empty_store java_profile)) (Some ''gradle'')))
     (fst (json_load empty_store java_profile))) = mcp_servers java_profile
   \<and> settings_merge_of (variant_config (fst (json_load empty_store java_profile)) (Some ''bare'')) = []
   \<and> document (snd (merge_profile (snd (json_load empty_store java_profile))
       (fst (json_load empty_store java_profile)) (Some ''bare'')))
     (fst (json_load empty_store java_profile)) = java_profile"
proof -
  have b: "settings_merge_of (variant_config (fst (json_load empty_store java_profile)) (Some ''bare'')) = []"
    unfolding variant_config_def json_load_variants[OF loaded_pair]
    by (simp add: java_profile_def py_get_def bare_variant_def empty_variant_def settings_merge_of_def)
  show ?thesis
    using merge_keeps_other_fields[OF loaded_pair refl, of "Some ''gradle''"]
      merge_keeps_other_fields[OF loaded_pair refl, of "Some ''bare''"] b
    by simp
qed

section \<open>Properties of the written files\<close>

subsection \<open>A run that returns\<close>

lemma bind_Inr: "bind m f = Inr y \<longleftrightarrow> (\<exists>x. m = Inr x \<and> f x = Inr y)"
  by (cases m) (simp_all add: bind_def)

lemma bind_Inr_left: "bind (Inr x) f = f x"
  by (simp add: bind_def)

lemma apply_profile_steps:
  assumes "apply_profile loads dumps dirs st fs name variant d dry = Inr fr"
  obtains p st0 v vc mcp st1 fs3 ra st2 sa st3 sg st4 fs7 where
    "load_profile dirs st name = Inr (p, st0)"
    "(case variant of None \<Rightarrow> detect_variant loads fs name d | Some v \<Rightarrow> Inr (Some v)) = Inr v"
    "vc = variant_config p v"
    "merge_mcp_servers st0 p vc = (mcp, st1)"
    "write_claude_md dry d (merge_claude_md p vc)
       (write_mcp_json dumps dry d (json_cells st1 ! mcp) (make_dirs dry d fs)) = Inr fs3"
    "merge_rules st1 p vc = (ra, st2)"
    "merge_skills st2 p vc = (sa, st3)"
    "merge_settings st3 p vc = (sg, st4)"
    "update_gitignore dry d
       (write_settings dumps dry d (json_cells st4 ! sg)
         (write_skills dry d (text_cells st3 ! sa)
           (write_rules dry d (text_cells st2 ! ra) fs3))) = Inr fs7"
    "fr = \<lparr>f_store = st4, f_files = fs7, f_profile = p, f_variant = v, f_mcp_servers = mcp,
           f_claude_md = merge_claude_md p vc, f_rules = ra, f_skills = sa, f_settings = sg\<rparr>"
proof -
  obtain p st0 where l: "load_profile dirs st name = Inr (p, st0)"
    using assms by (auto simp: apply_profile_def bind_Inr)
  obtain v where v: "(case variant of None \<Rightarrow> detect_variant loads fs name d | Some v \<Rightarrow> Inr (Some v)) = Inr v"
    using assms by (auto simp: apply_profile_def l bind_Inr Let_def)
  define vc where "vc = variant_config p v"
  obtain mcp st1 where m: "merge_mcp_servers st0 p vc = (mcp, st1)"
    by (cases "merge_mcp_servers st0 p vc") auto
  obtain ra st2 where r: "merge_rules st1 p vc = (ra, st2)"
    by (cases "merge_rules st1 p vc") auto
  obtain sa st3 where k: "merge_skills st2 p vc = (sa, st3)"
    by (cases "merge_skills st2 p vc") auto
  obtain sg st4 where s: "merge_settings st3 p vc = (sg, st4)"
    by (cases "merge_settings st3 p vc") auto
  have rest: "bind (write_claude_md dry d (merge_claude_md p vc)
       (write_mcp_json dumps dry d (json_cells st1 ! mcp) (make_dirs dry d fs))) (\<lambda>fs3.
     bind (update_gitignore dry d
       (write_settings dumps dry d (json_cells st4 ! sg)
         (write_skills dry d (text_cells st3 ! sa)
           (write_rules dry d (text_cells st2 ! ra) fs3)))) (\<lambda>fs7.
       Inr \<lparr>f_store = st4, f_files = fs7, f_profile = p, f_variant = v, f_mcp_servers = mcp,
           f_claude_md = merge_claude_md p vc, f_rules = ra, f_skills = sa, f_settings = sg\<rparr>)) = Inr fr"
    using assms unfolding apply_profile_def l v
    by (simp add: bind_Inr_left Let_def vc_def[symmetric] m r k s)
  then obtain fs3 fs7 where
    "write_claude_md dry d (merge_claude_md p vc)
       (write_mcp_json dumps dry d (json_cells st1 ! mcp) (make_dirs dry d fs)) = Inr fs3"
    "update_gitignore dry d
       (write_settings dumps dry d (json_cells st4 ! sg)
         (write_skills dry d (text_cells st3 ! sa)
           (write_rules dry d (text_cells st2 ! ra) fs3))) = Inr fs7"
    "fr = \<lparr>f_store = st4, f_files = fs7, f_profile = p, f_variant = v, f_mcp_servers = mcp,
           f_claude_md = merge_claude_md p vc, f_rules = ra, f_skills = sa, f_settings = sg\<rparr>"
    unfolding bind_Inr by auto
  then show ?thesis
    using that l v vc_def m r k s by blast
qed


text \<open>
  The effective configuration and the store that a run ends with are those of
  \<open>merge_profile\<close> on the loaded profile and the variant that the run resolved: the
  properties of the merge above are properties of \<^verbatim>\<open>apply_profile\<close>.
\<close>

lemma apply_profile_merge:
  assumes "apply_profile loads dumps dirs st fs name variant d dry = Inr fr"
  shows "\<exists>p st0. load_profile dirs st name = Inr (p, st0) \<and> f_profile fr = p
           \<and> merge_profile st0 p (f_variant fr) = (effective_config fr, f_store fr)"
proof -
  from assms(1) obtain p st0 v vc mcp st1 fs3 ra st2 sa st3 sg st4 fs7 where
    l: "load_profile dirs st name = Inr (p, st0)"
    and vr: "(case variant of None \<Rightarrow> detect_variant loads fs name d | Some v \<Rightarrow> Inr (Some v)) = Inr v"
    and vc: "vc = variant_config p v"
    and m: "merge_mcp_servers st0 p vc = (mcp, st1)"
    and c: "write_claude_md dry d (merge_claude_md p vc)
       (write_mcp_json dumps dry d (json_cells st1 ! mcp) (make_dirs dry d fs)) = Inr fs3"
    and r: "merge_rules st1 p vc = (ra, st2)"
    and k: "merge_skills st2 p vc = (sa, st3)"
    and s: "merge_settings st3 p vc = (sg, st4)"
    and g: "update_gitignore dry d
       (write_settings dumps dry d (json_cells st4 ! sg)
         (write_skills dry d (text_cells st3 ! sa)
           (write_rules dry d (text_cells st2 ! ra) fs3))) = Inr fs7"
    and fr: "fr = \<lparr>f_store = st4, f_files = fs7, f_profile = p, f_variant = v, f_mcp_servers = mcp,
           f_claude_md = merge_claude_md p vc, f_rules = ra, f_skills = sa, f_settings = sg\<rparr>"
    by (rule apply_profile_steps)
  show ?thesis
    by (simp add: merge_profile_def effective_config_def l vc[symmetric] m r k s fr)
qed


subsection \<open>What each step leaves alone\<close>

lemma map_of_write_text: "q \<noteq> p \<Longrightarrow> map_of (write_text fs p s) q = map_of fs q"
  by (simp add: write_text_def update_conv')

lemma map_of_mkdirs:
  "q \<notin> set qs \<Longrightarrow>
   map_of (fold (\<lambda>q' fs'. if exists fs' q' then fs' else AList.update q' Dir fs') qs fs) q
     = map_of fs q"
  by (induction qs arbitrary: fs) (auto simp: update_conv')

lemma map_of_mkdir_parents: "\<not> prefix q p \<Longrightarrow> map_of (mkdir_parents fs p) q = map_of fs q"
proof -
  assume "\<not> prefix q p"
  then have "q \<notin> set (prefixes p)"
    by simp
  then have "q \<notin> set (tl (prefixes p))"
    by (metis list.set_sel(2) tl_Nil)
  then show ?thesis
    by (simp add: mkdir_parents_def map_of_mkdirs)
qed

lemma joinpath_claude:
  "joinpath d ''.claude/rules'' = d @ [''.claude'', ''rules'']"
  "joinpath d ''.claude/skills'' = d @ [''.claude'', ''skills'']"
  "joinpath d ''.claude'' = d @ [''.claude'']"
  "joinpath d ''.mcp.json'' = d @ [''.mcp.json'']"
  "joinpath d ''.gitignore'' = d @ [''.gitignore'']"
  "joinpath (d @ [''.claude'']) ''rules'' = d @ [''.claude'', ''rules'']"
  "joinpath (d @ [''.claude'']) ''skills'' = d @ [''.claude'', ''skills'']"
  "joinpath (d @ [''.claude'']) ''CLAUDE.md'' = d @ [''.claude'', ''CLAUDE.md'']"
  "joinpath (d @ [''.claude'']) ''settings.json'' = d @ [''.claude'', ''settings.json'']"
  by (simp_all add: joinpath_def pattern_parts_def)

lemma with_suffix_claude_md:
  "with_suffix (d @ [''.claude'', ''CLAUDE.md'']) ''.md.bak'' = d @ [''.claude'', ''CLAUDE.md.bak'']"
  by (simp add: with_suffix_def butlast_append)

lemma make_dirs_frame:
  "n \<noteq> ''.claude'' \<Longrightarrow> map_of (make_dirs dry d fs) (d @ [n]) = map_of fs (d @ [n])"
  by (simp add: make_dirs_def joinpath_claude Let_def map_of_mkdir_parents)

lemma write_mcp_json_frame:
  "n \<noteq> ''.mcp.json'' \<Longrightarrow>
   map_of (write_mcp_json dumps dry d mcp fs) (d @ [n]) = map_of fs (d @ [n])"
  by (simp add: write_mcp_json_def joinpath_claude Let_def map_of_write_text)


lemma write_claude_md_eq:
  "write_claude_md dry d md fs =
     (if md \<noteq> [] then
        bind (if exists fs (d @ [''.claude'', ''CLAUDE.md'']) \<and> \<not> dry
              then copy2 fs (d @ [''.claude'', ''CLAUDE.md'']) (d @ [''.claude'', ''CLAUDE.md.bak''])
              else Inr fs)
          (\<lambda>fs1. Inr (if \<not> dry then write_text fs1 (d @ [''.claude'', ''CLAUDE.md'']) (md @ NL)
                       else fs1))
      else Inr fs)"
  unfolding write_claude_md_def joinpath_claude with_suffix_claude_md Let_def by (rule refl)

lemma copy2_frame: "copy2 fs src dst = Inr fs' \<Longrightarrow> q \<noteq> dst \<Longrightarrow> map_of fs' q = map_of fs q"
  by (auto simp: copy2_def bind_Inr map_of_write_text)

lemma write_claude_md_frame:
  assumes "write_claude_md dry d md fs = Inr fs'"
  shows "map_of fs' (d @ [n]) = map_of fs (d @ [n])"
proof (cases "md = []")
  case True
  then show ?thesis using assms by (simp add: write_claude_md_eq)
next
  case False
  let ?p = "d @ [''.claude'', ''CLAUDE.md'']"
  obtain fs1 where
    c: "(if exists fs ?p \<and> \<not> dry then copy2 fs ?p (d @ [''.claude'', ''CLAUDE.md.bak''])
         else Inr fs) = Inr fs1"
    and w: "fs' = (if \<not> dry then write_text fs1 ?p (md @ NL) else fs1)"
    using assms False by (auto simp: write_claude_md_eq bind_Inr)
  have "map_of fs1 (d @ [n]) = map_of fs (d @ [n])"
  proof (cases "exists fs ?p \<and> \<not> dry")
    case True
    then have "copy2 fs ?p (d @ [''.claude'', ''CLAUDE.md.bak'']) = Inr fs1"
      using c by simp
    then show ?thesis
      by (rule copy2_frame) simp
  next
    case False
    then show ?thesis using c by auto
  qed
  then show ?thesis
    by (simp add: w map_of_write_text)
qed

lemma rule_path_eq:
  "joinpath (joinpath (joinpath d ''.claude'') ''rules'') s
     = d @ ''.claude'' # ''rules'' # pattern_parts s"
  by (simp add: joinpath_def pattern_parts_def)

lemma skill_path_eq:
  "joinpath (joinpath (joinpath d ''.claude'') ''skills'') s
     = d @ ''.claude'' # ''skills'' # pattern_parts s"
  "joinpath (d @ ''.claude'' # ''skills'' # ps) ''SKILL.md''
     = d @ ''.claude'' # ''skills'' # ps @ [''SKILL.md'']"
  by (simp_all add: joinpath_def pattern_parts_def)

lemma write_rules_frame:
  "map_of (write_rules dry d items fs) (d @ [n]) = map_of fs (d @ [n])"
  by (induction items arbitrary: fs) (auto simp: rule_path_eq Let_def map_of_write_text)

lemma write_skills_frame:
  "n \<noteq> ''.claude'' \<Longrightarrow> map_of (write_skills dry d items fs) (d @ [n]) = map_of fs (d @ [n])"
  by (induction items arbitrary: fs)
    (auto simp: skill_path_eq Let_def map_of_write_text map_of_mkdir_parents)

lemma write_settings_frame:
  "map_of (write_settings dumps dry d stg fs) (d @ [n]) = map_of fs (d @ [n])"
  by (simp add: write_settings_def joinpath_claude Let_def map_of_write_text)


subsection \<open>No manifest for no servers\<close>



subsection \<open>A dry run\<close>

lemma write_rules_dry: "write_rules True d items fs = fs"
  by (induction items arbitrary: fs) auto

lemma write_skills_dry: "write_skills True d items fs = fs"
  by (induction items arbitrary: fs) auto

lemma update_gitignore_dry: "update_gitignore True d fs = Inr fs' \<Longrightarrow> fs' = fs"
  by (auto simp: update_gitignore_def Let_def bind_Inr split: if_splits)

lemma write_claude_md_dry: "write_claude_md True d md fs = Inr fs"
  by (simp add: write_claude_md_def bind_def)

lemma make_dirs_dry: "make_dirs True d fs = fs"
  by (simp add: make_dirs_def Let_def cong: if_cong)

lemma write_mcp_json_dry: "write_mcp_json dumps True d mcp fs = fs"
  by (simp add: write_mcp_json_def Let_def cong: if_cong)

lemma write_settings_dry: "write_settings dumps True d stg fs = fs"
  by (simp add: write_settings_def Let_def cong: if_cong)

text \<open>
  A dry run of \<^verbatim>\<open>apply_profile\<close> that returns leaves the file system as it was: every
  write is guarded by \<^verbatim>\<open>if not dry_run\<close>.
\<close>

theorem dry_run_writes_nothing:
  assumes "apply_profile loads dumps dirs st fs name variant d True = Inr fr"
  shows "f_files fr = fs"
proof -
  from assms(1) obtain p st0 v vc mcp st1 fs3 ra st2 sa st3 sg st4 fs7 where
    l: "load_profile dirs st name = Inr (p, st0)"
    and vr: "(case variant of None \<Rightarrow> detect_variant loads fs name d | Some v \<Rightarrow> Inr (Some v)) = Inr v"
    and vc: "vc = variant_config p v"
    and m: "merge_mcp_servers st0 p vc = (mcp, st1)"
    and c: "write_claude_md True d (merge_claude_md p vc)
       (write_mcp_json dumps True d (json_cells st1 ! mcp) (make_dirs True d fs)) = Inr fs3"
    and r: "merge_rules st1 p vc = (ra, st2)"
    and k: "merge_skills st2 p vc = (sa, st3)"
    and s: "merge_settings st3 p vc = (sg, st4)"
    and g: "update_gitignore True d
       (write_settings dumps True d (json_cells st4 ! sg)
         (write_skills True d (text_cells st3 ! sa)
           (write_rules True d (text_cells st2 ! ra) fs3))) = Inr fs7"
    and fr: "fr = \<lparr>f_store = st4, f_files = fs7, f_profile = p, f_variant = v, f_mcp_servers = mcp,
           f_claude_md = merge_claude_md p vc, f_rules = ra, f_skills = sa, f_settings = sg\<rparr>"
    by (rule apply_profile_steps)
  have "fs3 = fs"
    using c by (simp add: write_claude_md_dry write_mcp_json_dry make_dirs_dry)
  moreover have "fs7 = fs3"
    using update_gitignore_dry[OF g] by (simp add: write_settings_dry write_skills_dry write_rules_dry)
  ultimately show ?thesis
    by (simp add: fr)
qed

theorem dry_run_writes_nothing_witness:
  "(case apply_profile loads_sample dumps_sample sample_dirs empty_store fs_pom_gradle ''java''
          None [''proj''] True of
      Inr fr \<Rightarrow> f_variant fr = Some ''maven'' \<and> f_files fr = fs_pom_gradle
    | Inl e \<Rightarrow> False)"
proof -
  have ev: "(case apply_profile loads_sample dumps_sample sample_dirs empty_store fs_pom_gradle ''java''
          None [''proj''] True of
      Inr fr \<Rightarrow> f_variant fr = Some ''maven'' | Inl e \<Rightarrow> False)"
    by code_simp
  then obtain fr where
    fr: "apply_profile loads_sample dumps_sample sample_dirs empty_store fs_pom_gradle ''java''
          None [''proj''] True = Inr fr"
    and v: "f_variant fr = Some ''maven''"
    by (auto split: sum.splits)
  have "f_files fr = fs_pom_gradle"
    using fr by (rule dry_run_writes_nothing)
  then show ?thesis
    using v by (simp add: fr)
qed

subsection \<open>The ignore file\<close>

lemma update_gitignore_effect:
  assumes "update_gitignore False d fs = Inr fs'"
    and "existing = (case map_of fs (d @ [''.gitignore'']) of Some (File c) \<Rightarrow> c | _ \<Rightarrow> [])"
  shows "map_of fs' (d @ [''.gitignore'']) =
           (if new_entries existing = [] then map_of fs (d @ [''.gitignore''])
            else Some (File (existing @ NL @ ''# Claude Code (local)'' @ NL
                             @ concat (map (\<lambda>entry. entry @ NL) (new_entries existing)))))"
proof (cases "map_of fs (d @ [''.gitignore''])")
  case None
  then show ?thesis
    using assms
    by (auto simp: update_gitignore_def joinpath_claude exists_def bind_Inr_left append_text_def
        write_text_def update_conv' split: if_splits)
next
  case (Some nd)
  show ?thesis
  proof (cases nd)
    case (File c)
    then show ?thesis
      using assms Some
      by (auto simp: update_gitignore_def joinpath_claude exists_def read_text_def bind_Inr_left
          append_text_def write_text_def update_conv' split: if_splits)
  next
    case Dir
    then show ?thesis
      using assms Some
      by (simp add: update_gitignore_def joinpath_claude exists_def read_text_def bind_def)
  qed
qed

lemma sublist_shift: "sublist e s \<Longrightarrow> sublist e (ps @ s)"
  by (auto simp: sublist_def) (metis append.assoc)

lemma lines_acc_sublist: "e \<in> set (lines_acc acc s) \<Longrightarrow> sublist e (acc @ s)"
proof (induction acc s rule: lines_acc.induct)
  case (1 acc)
  then show ?case by (cases "acc = []") simp_all
next
  case (2 acc c cs)
  show ?case
  proof (cases "c = CHR 0x0A")
    case True
    then have "e = acc \<or> e \<in> set (lines_acc [] cs)"
      using "2.prems" by simp
    then show ?thesis
    proof
      assume "e = acc"
      then show ?thesis by simp
    next
      assume "e \<in> set (lines_acc [] cs)"
      then have "sublist e ([] @ cs)"
        by (rule "2.IH"(1)[OF True])
      then have "sublist e cs" by simp
      then have "sublist e ((acc @ [c]) @ cs)"
        by (rule sublist_shift)
      then show ?thesis by simp
    qed
  next
    case False
    then have "e \<in> set (lines_acc (acc @ [c]) cs)"
      using "2.prems" by simp
    then have "sublist e ((acc @ [c]) @ cs)"
      by (rule "2.IH"(2)[OF False])
    then show ?thesis by simp
  qed
qed

lemma line_is_sublist: "e \<in> set (lines_of s) \<Longrightarrow> sublist e s"
  using lines_acc_sublist[of e "[]" s] by (simp add: lines_of_def)

text \<open>
  Claim C9, as the code has it. After a run of \<^verbatim>\<open>apply_profile\<close> that is not a dry run,
  the ignore file holds its old text (empty when there was no file), followed by the
  comment line and by exactly those of the two entries that are not substrings of the old
  text, in their order; when both entries are substrings, the path is untouched. An entry
  that is a line of the old text is a substring of it and is not appended.
\<close>

theorem gitignore_entries_appended:
  assumes "apply_profile loads dumps dirs st fs name variant d False = Inr fr"
    and "existing = (case map_of fs (joinpath d ''.gitignore'') of Some (File c) \<Rightarrow> c | _ \<Rightarrow> [])"
    and "appended = filter (\<lambda>e. \<not> sublist e existing)
                      [''.claude/settings.local.json'', ''.claude/CLAUDE.local.md'']"
  shows "map_of (f_files fr) (joinpath d ''.gitignore'') =
           (if appended = [] then map_of fs (joinpath d ''.gitignore'')
            else Some (File (existing @ NL @ ''# Claude Code (local)'' @ NL
                             @ concat (map (\<lambda>e. e @ NL) appended))))
       \<and> (\<forall>e \<in> set (lines_of existing). e \<notin> set appended)"
proof -
  from assms(1) obtain p st0 v vc mcp st1 fs3 ra st2 sa st3 sg st4 fs7 where
    l: "load_profile dirs st name = Inr (p, st0)"
    and vr: "(case variant of None \<Rightarrow> detect_variant loads fs name d | Some v \<Rightarrow> Inr (Some v)) = Inr v"
    and vc: "vc = variant_config p v"
    and m: "merge_mcp_servers st0 p vc = (mcp, st1)"
    and c: "write_claude_md False d (merge_claude_md p vc)
       (write_mcp_json dumps False d (json_cells st1 ! mcp) (make_dirs False d fs)) = Inr fs3"
    and r: "merge_rules st1 p vc = (ra, st2)"
    and k: "merge_skills st2 p vc = (sa, st3)"
    and s: "merge_settings st3 p vc = (sg, st4)"
    and g: "update_gitignore False d
       (write_settings dumps False d (json_cells st4 ! sg)
         (write_skills False d (text_cells st3 ! sa)
           (write_rules False d (text_cells st2 ! ra) fs3))) = Inr fs7"
    and fr: "fr = \<lparr>f_store = st4, f_files = fs7, f_profile = p, f_variant = v, f_mcp_servers = mcp,
           f_claude_md = merge_claude_md p vc, f_rules = ra, f_skills = sa, f_settings = sg\<rparr>"
    by (rule apply_profile_steps)
  let ?q = "d @ [''.gitignore'']"
  let ?fs6 = "write_settings dumps False d (json_cells st4 ! sg)
         (write_skills False d (text_cells st3 ! sa)
           (write_rules False d (text_cells st2 ! ra) fs3))"
  have "map_of ?fs6 ?q = map_of fs3 ?q"
    by (simp add: write_settings_frame write_skills_frame write_rules_frame)
  also have "\<dots> = map_of fs ?q"
    using write_claude_md_frame[OF c, of "''.gitignore''"]
    by (simp add: write_mcp_json_frame make_dirs_frame)
  finally have same: "map_of ?fs6 ?q = map_of fs ?q" .
  have ex: "existing = (case map_of ?fs6 ?q of Some (File c) \<Rightarrow> c | _ \<Rightarrow> [])"
    unfolding same using assms(2) by (simp add: joinpath_claude)
  have ap: "appended = new_entries existing"
    by (simp add: assms(3) new_entries_def gitignore_entries_def)
  have one: "map_of (f_files fr) (joinpath d ''.gitignore'') =
           (if appended = [] then map_of fs (joinpath d ''.gitignore'')
            else Some (File (existing @ NL @ ''# Claude Code (local)'' @ NL
                             @ concat (map (\<lambda>e. e @ NL) appended))))"
    using update_gitignore_effect[OF g ex] by (simp add: fr joinpath_claude same ap)
  have two: "\<forall>e \<in> set (lines_of existing). e \<notin> set appended"
    by (auto simp: assms(3) dest: line_is_sublist)
  show ?thesis using one two by blast
qed

theorem gitignore_entries_appended_witness:
  "(case apply_profile loads_sample dumps_sample sample_dirs empty_store fs_gitignore ''java''
          (Some ''gradle'') [''proj''] False of
      Inr fr \<Rightarrow> map_of (f_files fr) [''proj'', ''.gitignore''] = Some (File gitignore_after)
    | Inl e \<Rightarrow> False)"
proof -
  have ev: "(case apply_profile loads_sample dumps_sample sample_dirs empty_store fs_gitignore ''java''
          (Some ''gradle'') [''proj''] False of Inr fr \<Rightarrow> True | Inl e \<Rightarrow> False)"
    by code_simp
  then obtain fr where
    fr: "apply_profile loads_sample dumps_sample sample_dirs empty_store fs_gitignore ''java''
          (Some ''gradle'') [''proj''] False = Inr fr"
    by (auto split: sum.splits)
  have ex: "(case map_of fs_gitignore (joinpath [''proj''] ''.gitignore'') of
               Some (File c) \<Rightarrow> c | _ \<Rightarrow> []) = gitignore_before"
    by (simp add: fs_gitignore_def joinpath_def pattern_parts_def)
  have ap: "filter (\<lambda>e. \<not> sublist e gitignore_before)
              [''.claude/settings.local.json'', ''.claude/CLAUDE.local.md'']
            = [''.claude/CLAUDE.local.md'']"
    by code_simp
  have "map_of (f_files fr) (joinpath [''proj''] ''.gitignore'')
        = Some (File (gitignore_before @ NL @ ''# Claude Code (local)'' @ NL
                      @ concat (map (\<lambda>e. e @ NL) [''.claude/CLAUDE.local.md''])))"
    using gitignore_entries_appended[OF fr ex[symmetric] ap[symmetric]] by simp
  then have "map_of (f_files fr) [''proj'', ''.gitignore''] = Some (File gitignore_after)"
    by (simp add: joinpath_def pattern_parts_def NL_def gitignore_before_def gitignore_after_def)
  then show ?thesis
    by (simp add: fr)
qed

text \<open>
  The claim as it was stated (an entry is appended exactly when it is not a line of the
  file) fails: in an ignore file whose only line is \<^verbatim>\<open>/.claude/settings.local.json\<close> the
  first entry is not a line, but it is a substring of that line and is not appended; it is
  not a line of the file after the run either.
\<close>

theorem gitignore_line_counterexample:
  "''.claude/settings.local.json'' \<notin> set (lines_of gitignore_before)
   \<and> (case apply_profile loads_sample dumps_sample sample_dirs empty_store fs_gitignore ''java''
          (Some ''gradle'') [''proj''] False of
        Inr fr \<Rightarrow> map_of (f_files fr) [''proj'', ''.gitignore''] = Some (File gitignore_after)
      | Inl e \<Rightarrow> False)
   \<and> ''.claude/settings.local.json'' \<notin> set (lines_of gitignore_after)"
proof -
  have a: "''.claude/settings.local.json'' \<notin> set (lines_of gitignore_before)"
    by code_simp
  have b: "(case apply_profile loads_sample dumps_sample sample_dirs empty_store fs_gitignore ''java''
          (Some ''gradle'') [''proj''] False of
        Inr fr \<Rightarrow> map_of (f_files fr) [''proj'', ''.gitignore''] = Some (File gitignore_after)
      | Inl e \<Rightarrow> False)"
    by code_simp
  have c: "''.claude/settings.local.json'' \<notin> set (lines_of gitignore_after)"
    by code_simp
  show ?thesis using a b c by blast
qed

end
